theory Spec2Isabelle
  imports Main "HOL-Library.Sublist"
begin

section \<open>The edit logger of \<^verbatim>\<open>src/extension.ts\<close>\<close>

text \<open>
  The extension is a single class \<^verbatim>\<open>Logger\<close> whose methods are called from the callbacks
  of the editor host. The model is a state-passing one: every method takes the host as it
  is when the call is made (\<open>host\<close>, read only) and the object (\<open>logger\<close>), and returns an
  \<open>outcome\<close>: the object after a normal return, or the exception and the object as the
  exception left it. What a method asks of the host (files written, timers armed, processes
  killed, console lines) is appended to the trace \<open>emitted\<close> kept beside the fields.

  The model covers the class \<^verbatim>\<open>Logger\<close> and the document-change listener of
  \<^verbatim>\<open>activate\<close>. The method \<^verbatim>\<open>logError\<close>, which nothing calls, the class
  \<^verbatim>\<open>PythonRunner\<close> and the registration of commands are left out.

  JavaScript strings are modelled as \<open>string\<close>; one \<open>char\<close> stands for one UTF-16 code
  unit, so that \<open>length\<close> is \<^verbatim>\<open>.length\<close>. Instants are the milliseconds of \<^verbatim>\<open>Date.now()\<close>;
  the ISO rendering of a timestamp is not modelled.
\<close>

subsection \<open>JavaScript strings\<close>

text \<open>\<^verbatim>\<open>String(num)\<close> for a natural number: its decimal digits.\<close>

definition digit_char :: "nat \<Rightarrow> char" where
  "digit_char d = char_of (48 + d)"

fun string_of_nat :: "nat \<Rightarrow> string" where
  "string_of_nat n =
     (if n < 10 then [digit_char n]
      else string_of_nat (n div 10) @ [digit_char (n mod 10)])"

declare string_of_nat.simps [simp del]

text \<open>Reading a decimal numeral back; only used to show that the rendering is injective.\<close>

definition nat_of_string :: "string \<Rightarrow> nat" where
  "nat_of_string cs = foldl (\<lambda>a c. 10 * a + (of_char c - 48)) 0 cs"

text \<open>
  \<^verbatim>\<open>s.split(sep)\<close> for a one-character separator. The result is never the empty list, so
  the last case below is never taken.
\<close>

fun js_split :: "char \<Rightarrow> string \<Rightarrow> string list" where
  "js_split sep [] = [[]]"
| "js_split sep (c # cs) =
     (if c = sep then [] # js_split sep cs
      else (case js_split sep cs of
              p # ps \<Rightarrow> (c # p) # ps
            | [] \<Rightarrow> [[c]]))"

text \<open>\<^verbatim>\<open>parts.join(sep)\<close>.\<close>

fun js_join :: "string \<Rightarrow> string list \<Rightarrow> string" where
  "js_join sep [] = []"
| "js_join sep [p] = p"
| "js_join sep (p # q # ps) = p @ sep @ js_join sep (q # ps)"

text \<open>\<^verbatim>\<open>s.includes(t)\<close> and \<^verbatim>\<open>s.endsWith(t)\<close>.\<close>

definition js_includes :: "string \<Rightarrow> string \<Rightarrow> bool" where
  "js_includes s t = sublist t s"

definition endsWith :: "string \<Rightarrow> string \<Rightarrow> bool" where
  "endsWith s t = suffix t s"

text \<open>
  \<^verbatim>\<open>a || b\<close> on values that are a string or \<^verbatim>\<open>undefined\<close> (\<open>None\<close>): the empty string and
  \<^verbatim>\<open>undefined\<close> are falsy.
\<close>

definition truthy :: "string option \<Rightarrow> bool" where
  "truthy a = (case a of None \<Rightarrow> False | Some x \<Rightarrow> x \<noteq> [])"

definition js_or :: "string option \<Rightarrow> string option \<Rightarrow> string option" where
  "js_or a b = (if truthy a then a else b)"

text \<open>\<^verbatim>\<open>String(num).padStart(2, "0")\<close>.\<close>

definition padZero :: "nat \<Rightarrow> string" where
  "padZero num = replicate (2 - length (string_of_nat num)) (CHR ''0'') @ string_of_nat num"

subsection \<open>The \<^verbatim>\<open>path\<close> module\<close>

text \<open>
  Node's \<^verbatim>\<open>path\<close> functions in their POSIX form. \<open>path_basename\<close>, \<open>path_extname\<close> and
  \<open>path_dirname\<close> follow Node's scanning loops. \<open>path_join\<close> puts one separator between a
  directory and a name and does not normalise \<^verbatim>\<open>.\<close>, \<^verbatim>\<open>..\<close> or doubled separators: it is
  Node's result when the directory is normalised and the name is a plain file name, which is
  how the logger calls it.
\<close>

definition is_sep :: "char \<Rightarrow> bool" where
  "is_sep c = (c = CHR ''/'')"

definition last_segment :: "string \<Rightarrow> string" where
  "last_segment p = rev (takeWhile (\<lambda>c. \<not> is_sep c) (dropWhile is_sep (rev p)))"

definition path_basename :: "string \<Rightarrow> string" where
  "path_basename p = last_segment p"

definition path_basename_ext :: "string \<Rightarrow> string \<Rightarrow> string" where
  "path_basename_ext p ext =
     (let b = last_segment p in
      if ext \<noteq> [] \<and> ext = p then []
      else if ext \<noteq> [] \<and> suffix ext b \<and> b \<noteq> ext then take (length b - length ext) b
      else b)"

definition path_extname :: "string \<Rightarrow> string" where
  "path_extname p =
     (let seg = last_segment p;
          ext = CHR ''.'' # rev (takeWhile (\<lambda>c. c \<noteq> CHR ''.'') (rev seg))
      in if CHR ''.'' \<notin> set seg \<or> length ext = length seg \<or> seg = ''..'' then [] else ext)"

definition path_dirname :: "string \<Rightarrow> string" where
  "path_dirname p =
     (if p = [] then ''.''
      else
        let hasRoot = is_sep (hd p);
            r = dropWhile (\<lambda>c. \<not> is_sep c) (dropWhile is_sep (rev (tl p)))
        in if r = [] then (if hasRoot then ''/'' else ''.'')
           else if hasRoot \<and> tl r = [] then ''//''
           else hd p # rev (tl r))"

definition join_prefix :: "string \<Rightarrow> string" where
  "join_prefix dir =
     (if dir = [] then [] else if is_sep (last dir) then dir else dir @ ''/'')"

definition path_join :: "string \<Rightarrow> string \<Rightarrow> string" where
  "path_join dir name = join_prefix dir @ name"

subsection \<open>The file system\<close>

text \<open>
  The file system is a finite table from paths to entries. An entry records what the two
  synchronous reads of the program give for it: \<^verbatim>\<open>fs.statSync(p).size\<close> and
  \<^verbatim>\<open>fs.readFileSync(p, 'utf8')\<close>, each either a value or the error it raises (a directory
  raises \<open>EISDIR\<close> when read, a file without read permission \<open>EACCES\<close>).
  \<^verbatim>\<open>fs.existsSync\<close> never raises.
\<close>

datatype fs_error = ENOENT | EACCES | EISDIR | EIO | ENOSPC

record fs_entry =
  stat_size :: "fs_error + nat"
  content :: "fs_error + string"

type_synonym file_system = "(string \<times> fs_entry) list"

definition existsSync :: "file_system \<Rightarrow> string \<Rightarrow> bool" where
  "existsSync fs p = (map_of fs p \<noteq> None)"

definition statSync_size :: "file_system \<Rightarrow> string \<Rightarrow> fs_error + nat" where
  "statSync_size fs p = (case map_of fs p of None \<Rightarrow> Inl ENOENT | Some e \<Rightarrow> stat_size e)"

definition readFileSync :: "file_system \<Rightarrow> string \<Rightarrow> fs_error + string" where
  "readFileSync fs p = (case map_of fs p of None \<Rightarrow> Inl ENOENT | Some e \<Rightarrow> content e)"

subsection \<open>Choosing the part of the log file\<close>

text \<open>
  The path of part \<open>n\<close>, as \<^verbatim>\<open>saveLog\<close> builds it:
  \<^verbatim>\<open>path.join(dirName, `${baseName}_part${partNumber}${ext}`)\<close>.
\<close>

definition partPath :: "string \<Rightarrow> string \<Rightarrow> string \<Rightarrow> nat \<Rightarrow> string" where
  "partPath dirName baseName ext partNumber =
     path_join dirName (baseName @ ''_part'' @ string_of_nat partNumber @ ext)"

lemma nat_of_string_snoc:
  "nat_of_string (cs @ [c]) = 10 * nat_of_string cs + (of_char c - 48)"
  by (simp add: nat_of_string_def)

lemma digit_value: "d < 10 \<Longrightarrow> of_char (digit_char d) - 48 = (d::nat)"
  by (simp add: digit_char_def)

lemma nat_of_string_of_nat: "nat_of_string (string_of_nat n) = n"
proof (induction n rule: string_of_nat.induct)
  case (1 n)
  show ?case
  proof (cases "n < 10")
    case True
    then show ?thesis
      by (simp add: string_of_nat.simps [of n] nat_of_string_def digit_value)
  next
    case False
    then have "nat_of_string (string_of_nat (n div 10)) = n div 10"
      using "1.IH" by simp
    with False show ?thesis
      by (simp add: string_of_nat.simps [of n] nat_of_string_snoc digit_value)
  qed
qed

lemma string_of_nat_inj: "string_of_nat m = string_of_nat n \<Longrightarrow> m = n"
  by (metis nat_of_string_of_nat)

lemma partPath_inj: "partPath d b e m = partPath d b e n \<Longrightarrow> m = n"
  by (simp add: partPath_def path_join_def string_of_nat_inj)

lemma finite_parts: "finite {m. partPath d b e m \<in> fst ` set (fs :: file_system)}"
proof -
  have "inj (partPath d b e)"
    by (rule injI) (rule partPath_inj)
  then have "finite (partPath d b e -` (fst ` set fs))"
    by (intro finite_vimageI) simp_all
  then show ?thesis
    by (simp add: vimage_def)
qed

text \<open>
  The loop of \<^verbatim>\<open>saveLog\<close>:
  \<^verbatim>\<open>while (fs.existsSync(p) && fs.statSync(p).size > 1024 * 1024) { partNumber++; ... }\<close>.
  It returns the part number it stops at, or the error \<^verbatim>\<open>statSync\<close> raised.
\<close>

function scanParts ::
  "file_system \<Rightarrow> string \<Rightarrow> string \<Rightarrow> string \<Rightarrow> nat \<Rightarrow> fs_error + nat" where
  "scanParts fs dirName baseName ext partNumber =
     (if existsSync fs (partPath dirName baseName ext partNumber) then
        (case statSync_size fs (partPath dirName baseName ext partNumber) of
           Inl e \<Rightarrow> Inl e
         | Inr sz \<Rightarrow>
             if sz > 1024 * 1024 then scanParts fs dirName baseName ext (partNumber + 1)
             else Inr partNumber)
      else Inr partNumber)"
  by pat_completeness auto
termination
proof (relation "measure (\<lambda>(fs, d, b, e, n). card {m. n \<le> m \<and> partPath d b e m \<in> fst ` set fs})")
  show "wf (measure (\<lambda>(fs, d, b, e, n). card {m. n \<le> m \<and> partPath d b e m \<in> fst ` set fs}))"
    by simp
next
  fix fs :: file_system and d b e :: string and n :: nat and sz :: nat
  assume ex: "existsSync fs (partPath d b e n)"
  let ?A = "{m. n + 1 \<le> m \<and> partPath d b e m \<in> fst ` set fs}"
  let ?B = "{m. n \<le> m \<and> partPath d b e m \<in> fst ` set fs}"
  have fin: "finite ?B"
    by (rule finite_subset [OF _ finite_parts [of d b e fs]]) auto
  from ex have "partPath d b e n \<in> fst ` set fs"
    by (simp add: existsSync_def map_of_eq_None_iff)
  then have "n \<in> ?B" "n \<notin> ?A"
    by simp_all
  moreover have "?A \<subseteq> ?B"
    by auto
  ultimately have "?A \<subset> ?B"
    by blast
  then have "card ?A < card ?B"
    using fin by (rule psubset_card_mono [rotated])
  then show "((fs, d, b, e, n + 1), (fs, d, b, e, n))
      \<in> measure (\<lambda>(fs, d, b, e, n). card {m. n \<le> m \<and> partPath d b e m \<in> fst ` set fs})"
    by simp
qed

declare scanParts.simps [simp del]

subsection \<open>Log entries\<close>

text \<open>
  The four entry interfaces. A key entry is pushed on \<^verbatim>\<open>editLog\<close>, whose element type is
  \<^verbatim>\<open>EditLogEntry\<close>: all its fields but the timestamp are optional, and a key entry fills
  \<open>key\<close>, \<open>position\<close> and \<open>lineContent\<close>. Fields that two interfaces share by name carry a
  prefix in the second one, as do the fields of \<^verbatim>\<open>currentExecution\<close> (\<open>cur_\<close>), whose names
  are keywords here.
\<close>

record position =
  line :: nat
  character :: nat

record range =
  range_start :: position
  range_end :: position

record edit_log_entry =
  timestamp :: int
  erange :: "range option"
  etext :: "string option"
  operation :: "string option"
  lineContent :: "string option"
  key :: "string option"
  eposition :: "position option"

record error_log_entry =
  err_timestamp :: int
  message :: string
  stack :: "string option"
  code :: "string option"
  err_event :: "string option"
  err_language :: "string option"

record execution_log_entry =
  exe_timestamp :: int
  event :: string
  exe_file :: string
  language :: string
  exe_output :: "string option"
  exe_error :: "string option"
  exitCode :: "int option"
  duration :: "int option"

text \<open>The object that \<^verbatim>\<open>saveLog\<close> serialises (\<^verbatim>\<open>logData\<close>).\<close>

record log_data =
  ld_studentId :: string
  ld_sessionId :: string
  ld_fileName :: string
  ld_editLog :: "edit_log_entry list"
  ld_errorLog :: "error_log_entry list"
  ld_executionLog :: "execution_log_entry list"

subsection \<open>The host\<close>

text \<open>
  What the program reads from the editor host and from Node during one synchronous call.
  A document carries the fields the program looks at.
\<close>

record document =
  fileName :: string
  scheme :: string
  languageId :: string
  doc_lines :: "string list"

record datetime =
  getFullYear :: nat
  getMonth :: nat
  getDate :: nat
  getHours :: nat
  getMinutes :: nat
  getSeconds :: nat

record host =
  dateNow :: int
  localTime :: datetime
  files :: file_system
  mkdirError :: "string \<Rightarrow> fs_error option"
  activePosition :: "position option"
  textDocuments :: "document list"
  workspaceFolderOf :: "document \<Rightarrow> string option"
  workspaceFolders :: "string list"
  tmpdir :: string
  configStudentId :: "string option"

text \<open>
  What the program asks of the host. A write is asynchronous: the program hands the path and
  the data over and goes on; the result comes back later in a callback. A timer is named by
  the position of its \<open>SetTimeout\<close> in the trace.
\<close>

datatype js_error = FsError fs_error | IllegalLine

datatype effect =
    WriteFile string log_data
  | ConsoleError string js_error
  | MkdirSync string
  | SetTimeout nat nat
  | ClearTimeout nat
  | Kill nat

subsection \<open>The logger object\<close>

record execution =
  startTime :: int
  cur_file :: string
  cur_process :: "nat option"
  cur_output :: string
  cur_error :: string

record logger =
  logFolder :: string
  sessionId :: string
  studentId :: string
  currentDocument :: string
  logFile :: string
  editLog :: "edit_log_entry list"
  errorLog :: "error_log_entry list"
  executionLog :: "execution_log_entry list"
  isSaving :: bool
  saveTimeout :: "nat option"
  currentExecution :: "execution option"
  emitted :: "effect list"

datatype outcome = Returns logger | Throws js_error logger

text \<open>Sequencing: the next statement runs when the call before it returned.\<close>

definition and_then :: "outcome \<Rightarrow> (logger \<Rightarrow> outcome) \<Rightarrow> outcome" where
  "and_then r k = (case r of Returns s \<Rightarrow> k s | Throws e s \<Rightarrow> Throws e s)"

definition emit :: "effect \<Rightarrow> logger \<Rightarrow> logger" where
  "emit x s = s\<lparr>emitted := emitted s @ [x]\<rparr>"

text \<open>The object after either way of leaving a call.\<close>

fun state_of :: "outcome \<Rightarrow> logger" where
  "state_of (Returns s) = s"
| "state_of (Throws e s) = s"

text \<open>\<^verbatim>\<open>document.lineAt(n).text\<close>: raises on a line the document does not have.\<close>

definition lineAt :: "document \<Rightarrow> nat \<Rightarrow> js_error + string" where
  "lineAt d n = (if n < length (doc_lines d) then Inr (doc_lines d ! n) else Inl IllegalLine)"

subsection \<open>Saving\<close>

text \<open>\<^verbatim>\<open>scheduleSave\<close>: cancel the pending timer, if any, and arm a new one of 1000 ms.\<close>

definition scheduleSave :: "logger \<Rightarrow> logger" where
  "scheduleSave s =
     (let s1 = (case saveTimeout s of None \<Rightarrow> s | Some t \<Rightarrow> emit (ClearTimeout t) s);
          t' = length (emitted s1)
      in (emit (SetTimeout t' 1000) s1)\<lparr>saveTimeout := Some t'\<rparr>)"

definition logData_of :: "logger \<Rightarrow> log_data" where
  "logData_of s =
     \<lparr>ld_studentId = studentId s, ld_sessionId = sessionId s, ld_fileName = currentDocument s,
      ld_editLog = editLog s, ld_errorLog = errorLog s, ld_executionLog = executionLog s\<rparr>"

text \<open>
  The body of the \<^verbatim>\<open>try\<close> block of \<^verbatim>\<open>saveLog\<close>: the part is chosen and the write is handed
  to the host, or \<^verbatim>\<open>statSync\<close> raises.
\<close>

definition saveLog_try :: "host \<Rightarrow> log_data \<Rightarrow> logger \<Rightarrow> outcome" where
  "saveLog_try h logData s =
     (let ext = path_extname (logFile s);
          baseName = path_basename_ext (logFile s) ext;
          dirName = path_dirname (logFile s)
      in case scanParts (files h) dirName baseName ext 1 of
           Inl e \<Rightarrow> Throws (FsError e) s
         | Inr partNumber \<Rightarrow>
             Returns (emit (WriteFile (partPath dirName baseName ext partNumber) logData) s))"

text \<open>
  \<^verbatim>\<open>saveLog\<close>: the guard, the flag, the \<^verbatim>\<open>try\<close> block, the \<^verbatim>\<open>catch\<close> that reports on the
  console, and the \<^verbatim>\<open>finally\<close> that clears the flag.
\<close>

definition saveLog :: "host \<Rightarrow> logger \<Rightarrow> outcome" where
  "saveLog h s =
     (if logFile s = [] \<or> isSaving s then Returns s
      else
        let s1 = s\<lparr>isSaving := True\<rparr>;
            logData = logData_of s1;
            s2 = (case saveLog_try h logData s1 of
                    Returns s' \<Rightarrow> s'
                  | Throws e s' \<Rightarrow> emit (ConsoleError ''Failed to save log:'' e) s')
        in Returns (s2\<lparr>isSaving := False\<rparr>))"

text \<open>
  The callback of \<^verbatim>\<open>fs.writeFile\<close>, run by the host when the write has ended (the label
  it prints is Japanese in the source and is written in English here).
\<close>

definition writeFileCallback :: "fs_error option \<Rightarrow> logger \<Rightarrow> outcome" where
  "writeFileCallback err s =
     (case err of
        None \<Rightarrow> Returns s
      | Some e \<Rightarrow> Returns (emit (ConsoleError ''log file write error:'' (FsError e)) s))"

text \<open>
  Node checks the arguments of \<^verbatim>\<open>fs.writeFile\<close> before it starts the write, and throws at
  once when it refuses them (a path that holds a NUL character). The call is inside the
  \<^verbatim>\<open>try\<close> block: the exception goes to the \<^verbatim>\<open>catch\<close>, which prints it, and the
  \<^verbatim>\<open>finally\<close> clears the flag. In the trace a refused call is the \<open>WriteFile\<close> request
  followed by that console line; \<open>writeFileThrew\<close> is the \<^verbatim>\<open>catch\<close>, applied to the object
  that \<open>saveLog\<close> gives.
\<close>

definition writeFileThrew :: "js_error \<Rightarrow> logger \<Rightarrow> outcome" where
  "writeFileThrew e s = Returns (emit (ConsoleError ''Failed to save log:'' e) s)"

text \<open>The callback of the timer armed by \<^verbatim>\<open>scheduleSave\<close>.\<close>

definition saveTimeoutCallback :: "host \<Rightarrow> logger \<Rightarrow> outcome" where
  "saveTimeoutCallback h s = saveLog h s"

subsection \<open>Construction and the log-file target\<close>

definition getLogFolderPath :: "host \<Rightarrow> string" where
  "getLogFolderPath h =
     (case workspaceFolders h of
        w # _ \<Rightarrow> path_join w ''.logs''
      | [] \<Rightarrow> path_join (tmpdir h) ''.logs'')"

definition generateSessionId :: "host \<Rightarrow> string" where
  "generateSessionId h =
     (let now = localTime h
      in ''session_'' @ string_of_nat (getFullYear now) @ padZero (getMonth now + 1)
         @ padZero (getDate now) @ ''_'' @ padZero (getHours now) @ padZero (getMinutes now)
         @ padZero (getSeconds now))"

definition loadedStudentId :: "host \<Rightarrow> string" where
  "loadedStudentId h =
     (case configStudentId h of
        None \<Rightarrow> ''anonymous''
      | Some i \<Rightarrow> if i \<noteq> [] then i else ''anonymous'')"

definition ensureFolder :: "host \<Rightarrow> string \<Rightarrow> logger \<Rightarrow> outcome" where
  "ensureFolder h folderPath s =
     (if \<not> existsSync (files h) folderPath then
        (case mkdirError h folderPath of
           Some e \<Rightarrow> Throws (FsError e) s
         | None \<Rightarrow> Returns (emit (MkdirSync folderPath) s))
      else Returns s)"

definition constructor :: "host \<Rightarrow> outcome" where
  "constructor h =
     ensureFolder h (getLogFolderPath h)
       \<lparr>logFolder = getLogFolderPath h, sessionId = generateSessionId h,
        studentId = loadedStudentId h, currentDocument = [], logFile = [],
        editLog = [], errorLog = [], executionLog = [], isSaving = False,
        saveTimeout = None, currentExecution = None, emitted = []\<rparr>"

definition loadStudentId :: "host \<Rightarrow> logger \<Rightarrow> outcome" where
  "loadStudentId h s = Returns (s\<lparr>studentId := loadedStudentId h\<rparr>)"

definition shouldIgnoreDocument :: "logger \<Rightarrow> document \<Rightarrow> bool" where
  "shouldIgnoreDocument s d =
     (let isLogFile =
            (js_includes (fileName d) ''.logs'' \<or>
             endsWith (fileName d) ''.json'' \<and>
               (js_includes (fileName d) (''_'' @ sessionId s @ ''.json'') \<or>
                js_includes (fileName d) (studentId s @ ''_'')));
          isOutputOrTerminal =
            (scheme d = ''output'' \<or> scheme d = ''terminal'' \<or>
             js_includes (fileName d) ''extension-output'' \<or>
             js_includes (fileName d) ''Python Execution Log'')
      in isLogFile \<or> isOutputOrTerminal)"

text \<open>
  The path \<^verbatim>\<open>onDocumentChange\<close> assigns to \<^verbatim>\<open>logFile\<close>:
  \<^verbatim>\<open>path.join(folderPath, `${studentId}_${path.basename(fileName)}_${sessionId}.json`)\<close>.
\<close>

definition logFileFor :: "string \<Rightarrow> logger \<Rightarrow> document \<Rightarrow> string" where
  "logFileFor folderPath s d =
     path_join folderPath
       (studentId s @ ''_'' @ path_basename (fileName d) @ ''_'' @ sessionId s @ ''.json'')"

definition onDocumentChange :: "host \<Rightarrow> document \<Rightarrow> logger \<Rightarrow> outcome" where
  "onDocumentChange h d s =
     (if shouldIgnoreDocument s d then Returns s
      else if currentDocument s \<noteq> fileName d then
        let s1 = s\<lparr>currentDocument := fileName d\<rparr>
        in case workspaceFolderOf h d of
             None \<Rightarrow> saveLog h (s1\<lparr>logFile := logFileFor (logFolder s1) s1 d\<rparr>)
           | Some w \<Rightarrow>
               and_then (ensureFolder h (path_join w ''.logs'') s1)
                 (\<lambda>s2. saveLog h (s2\<lparr>logFile := logFileFor (path_join w ''.logs'') s2 d\<rparr>))
      else Returns s)"

subsection \<open>Edits and keys\<close>

record content_change =
  change_range :: range
  rangeLength :: nat
  change_text :: string

definition logEdit :: "host \<Rightarrow> content_change \<Rightarrow> document \<Rightarrow> logger \<Rightarrow> outcome" where
  "logEdit h edit d s =
     (case lineAt d (line (range_start (change_range edit))) of
        Inl e \<Rightarrow> Throws e s
      | Inr l \<Rightarrow>
          let editInfo =
                \<lparr>timestamp = dateNow h,
                 erange = Some \<lparr>range_start = range_start (change_range edit),
                                range_end = range_end (change_range edit)\<rparr>,
                 etext = Some (change_text edit),
                 operation = Some
                   (if change_text edit = [] then ''delete''
                    else if rangeLength edit > 0 \<and> change_text edit \<noteq> [] then ''replace''
                    else ''insert''),
                 lineContent = Some l, key = None, eposition = None\<rparr>
          in Returns (scheduleSave (s\<lparr>editLog := editLog s @ [editInfo]\<rparr>)))"

definition logKeyInput :: "host \<Rightarrow> string \<Rightarrow> document \<Rightarrow> logger \<Rightarrow> outcome" where
  "logKeyInput h k d s =
     (case activePosition h of
        None \<Rightarrow> Returns s
      | Some pos \<Rightarrow>
          (case lineAt d (line pos) of
             Inl e \<Rightarrow> Throws e s
           | Inr l \<Rightarrow>
               let keyInfo =
                     \<lparr>timestamp = dateNow h, erange = None, etext = None, operation = None,
                      lineContent = Some l, key = Some k,
                      eposition = Some \<lparr>line = line pos, character = character pos\<rparr>\<rparr>;
                   s1 = s\<lparr>editLog := editLog s @ [keyInfo]\<rparr>
               in Returns (if length (editLog s1) mod 10 = 0 then scheduleSave s1 else s1)))"

subsection \<open>Executions\<close>

definition newline :: char where
  "newline = CHR 0x0A"

definition snapshotCode :: "host \<Rightarrow> string \<Rightarrow> fs_error + string" where
  "snapshotCode h filePath =
     (if existsSync (files h) filePath then readFileSync (files h) filePath else Inr [])"

definition logPythonError :: "host \<Rightarrow> string \<Rightarrow> string \<Rightarrow> logger \<Rightarrow> outcome" where
  "logPythonError h filePath errorMessage s =
     (let errorLines = js_split newline errorMessage
      in if length errorLines > 1 then
           (case snapshotCode h filePath of
              Inl e \<Rightarrow> Throws (FsError e) s
            | Inr c \<Rightarrow>
                Returns (s\<lparr>errorLog := errorLog s @
                  [\<lparr>err_timestamp = dateNow h, message = errorLines ! 0,
                    stack = Some (js_join [newline] (drop 1 errorLines)), code = Some c,
                    err_event = Some ''python_execution_error'',
                    err_language = Some ''python''\<rparr>]\<rparr>))
         else
           (case snapshotCode h filePath of
              Inl e \<Rightarrow> Throws (FsError e) s
            | Inr c \<Rightarrow>
                Returns (s\<lparr>errorLog := errorLog s @
                  [\<lparr>err_timestamp = dateNow h, message = errorMessage,
                    stack = None, code = Some c,
                    err_event = Some ''python_execution_error'',
                    err_language = Some ''python''\<rparr>]\<rparr>)))"

text \<open>
  \<^verbatim>\<open>a || b || 'Unknown error'\<close>: the first truthy one; the last is a non-empty literal, so
  the result is a string.
\<close>

definition or_default :: "string option \<Rightarrow> string \<Rightarrow> string" where
  "or_default a d = (case a of None \<Rightarrow> d | Some x \<Rightarrow> if x \<noteq> [] then x else d)"

text \<open>The \<^verbatim>\<open>executionInfo\<close> objects of \<^verbatim>\<open>finishExecution\<close> and \<^verbatim>\<open>startPythonExecution\<close>.\<close>

definition executionEndInfo ::
  "host \<Rightarrow> execution \<Rightarrow> int \<Rightarrow> string option \<Rightarrow> execution_log_entry" where
  "executionEndInfo h ex exitCode' errorMessage =
     \<lparr>exe_timestamp = dateNow h, event = ''execution_end'', exe_file = cur_file ex,
      language = ''python'', exe_output = Some (cur_output ex),
      exe_error = js_or (Some (cur_error ex)) errorMessage,
      exitCode = Some exitCode', duration = Some (dateNow h - startTime ex)\<rparr>"

definition executionStartInfo :: "host \<Rightarrow> string \<Rightarrow> execution_log_entry" where
  "executionStartInfo h filePath =
     \<lparr>exe_timestamp = dateNow h, event = ''execution_start'', exe_file = filePath,
      language = ''python'', exe_output = None, exe_error = None, exitCode = None,
      duration = None\<rparr>"

definition finishExecution :: "host \<Rightarrow> int \<Rightarrow> string option \<Rightarrow> logger \<Rightarrow> outcome" where
  "finishExecution h exitCode' errorMessage s =
     (case currentExecution s of
        None \<Rightarrow> Returns s
      | Some ex \<Rightarrow>
          let s1 = s\<lparr>executionLog :=
                     executionLog s @ [executionEndInfo h ex exitCode' errorMessage]\<rparr>
          in and_then
               (if exitCode' \<noteq> 0 \<or> truthy (Some (cur_error ex)) \<or> truthy errorMessage then
                  logPythonError h (cur_file ex)
                    (or_default (js_or (Some (cur_error ex)) errorMessage) ''Unknown error'') s1
                else Returns s1)
               (\<lambda>s2. Returns (scheduleSave (s2\<lparr>currentExecution := None\<rparr>))))"

definition startPythonExecution :: "host \<Rightarrow> string \<Rightarrow> logger \<Rightarrow> outcome" where
  "startPythonExecution h filePath s =
     and_then
       (case currentExecution s of
          None \<Rightarrow> Returns s
        | Some ex \<Rightarrow>
            finishExecution h 1 (Some ''Aborted by new execution'')
              (case cur_process ex of None \<Rightarrow> s | Some p \<Rightarrow> emit (Kill p) s))
       (\<lambda>s1.
          let s2 = s1\<lparr>currentExecution :=
                     Some \<lparr>startTime = dateNow h, cur_file = filePath, cur_process = None,
                           cur_output = [], cur_error = []\<rparr>\<rparr>
          in and_then
               (case find (\<lambda>doc. fileName doc = filePath) (textDocuments h) of
                  None \<Rightarrow> Returns s2
                | Some doc \<Rightarrow> onDocumentChange h doc s2)
               (\<lambda>s3. Returns (scheduleSave
                  (s3\<lparr>executionLog := executionLog s3 @ [executionStartInfo h filePath]\<rparr>))))"

text \<open>
  \<^verbatim>\<open>setPythonProcess\<close> binds the process and registers four listeners; each listener is a
  function of its own here. They act on whatever \<^verbatim>\<open>currentExecution\<close> is when they run.
\<close>

definition setPythonProcess :: "nat \<Rightarrow> logger \<Rightarrow> outcome" where
  "setPythonProcess p s =
     (case currentExecution s of
        None \<Rightarrow> Returns s
      | Some ex \<Rightarrow> Returns (s\<lparr>currentExecution := Some (ex\<lparr>cur_process := Some p\<rparr>)\<rparr>))"

definition onStdoutData :: "string \<Rightarrow> logger \<Rightarrow> outcome" where
  "onStdoutData d s =
     (case currentExecution s of
        None \<Rightarrow> Returns s
      | Some ex \<Rightarrow>
          Returns (s\<lparr>currentExecution := Some (ex\<lparr>cur_output := cur_output ex @ d\<rparr>)\<rparr>))"

definition onStderrData :: "string \<Rightarrow> logger \<Rightarrow> outcome" where
  "onStderrData d s =
     (case currentExecution s of
        None \<Rightarrow> Returns s
      | Some ex \<Rightarrow>
          Returns (s\<lparr>currentExecution := Some (ex\<lparr>cur_error := cur_error ex @ d\<rparr>)\<rparr>))"

definition onProcessExit :: "host \<Rightarrow> int option \<Rightarrow> logger \<Rightarrow> outcome" where
  "onProcessExit h c s =
     finishExecution h (case c of None \<Rightarrow> 0 | Some n \<Rightarrow> n) None s"

definition onProcessError :: "host \<Rightarrow> string \<Rightarrow> logger \<Rightarrow> outcome" where
  "onProcessError h errMessage s =
     finishExecution h 1 (Some errMessage)
       (case currentExecution s of
          None \<Rightarrow> s
        | Some ex \<Rightarrow> s\<lparr>currentExecution := Some (ex\<lparr>cur_error := cur_error ex @ errMessage\<rparr>)\<rparr>)"

subsection \<open>The document-change handler\<close>

record change_event =
  ev_document :: document
  contentChanges :: "content_change list"

text \<open>The body of the \<^verbatim>\<open>forEach\<close> callback.\<close>

definition handleChange :: "host \<Rightarrow> document \<Rightarrow> content_change \<Rightarrow> logger \<Rightarrow> outcome" where
  "handleChange h d change s =
     (if length (change_text change) \<ge> 1 \<and> rangeLength change > 0 then logEdit h change d s
      else if length (change_text change) = 1 \<and> rangeLength change = 0 then
        logKeyInput h (change_text change) d s
      else if change_text change = [] \<and> rangeLength change = 1 then
        logKeyInput h ''Delete'' d s
      else if change_text change = [newline] \<or> change_text change = [CHR 0x0D, newline] then
        logKeyInput h ''Enter'' d s
      else Returns s)"

fun forEach :: "('a \<Rightarrow> logger \<Rightarrow> outcome) \<Rightarrow> 'a list \<Rightarrow> logger \<Rightarrow> outcome" where
  "forEach f [] s = Returns s"
| "forEach f (x # xs) s = and_then (f x s) (forEach f xs)"

definition onDidChangeTextDocument :: "host \<Rightarrow> change_event \<Rightarrow> logger \<Rightarrow> outcome" where
  "onDidChangeTextDocument h e s =
     (if languageId (ev_document e) \<noteq> ''python'' \<or> shouldIgnoreDocument s (ev_document e)
      then Returns s
      else and_then (onDocumentChange h (ev_document e) s)
             (forEach (handleChange h (ev_document e)) (contentChanges e)))"

text \<open>
  The host delivers the events one at a time, each with the host as it is then; an
  exception that leaves a listener ends that listener only, and the object stays as the
  exception left it.
\<close>

fun deliver :: "(host \<times> change_event) list \<Rightarrow> logger \<Rightarrow> logger" where
  "deliver [] s = s"
| "deliver ((h, e) # es) s = deliver es (state_of (onDidChangeTextDocument h e s))"

text \<open>
  Everything the host can make the logger do after its construction: the document-change
  listener, the two calls of the runner (\<^verbatim>\<open>startPythonExecution\<close>, \<^verbatim>\<open>setPythonProcess\<close>), the
  four listeners of the process, the timer of \<^verbatim>\<open>scheduleSave\<close>, the two ends of a write
  that fails or succeeds, and the reload of the student id. A state is reachable when the
  constructor returned it or an event led to it from a reachable state.
\<close>

datatype event =
    DidChangeTextDocument change_event
  | StartPythonExecution string
  | SetPythonProcess nat
  | StdoutData string
  | StderrData string
  | ProcessExit "int option"
  | ProcessError string
  | SaveTimeout
  | WriteFileDone "fs_error option"
  | WriteFileThrew js_error
  | LoadStudentId

fun handle :: "host \<Rightarrow> event \<Rightarrow> logger \<Rightarrow> outcome" where
  "handle h (DidChangeTextDocument e) s = onDidChangeTextDocument h e s"
| "handle h (StartPythonExecution filePath) s = startPythonExecution h filePath s"
| "handle h (SetPythonProcess p) s = setPythonProcess p s"
| "handle h (StdoutData d) s = onStdoutData d s"
| "handle h (StderrData d) s = onStderrData d s"
| "handle h (ProcessExit c) s = onProcessExit h c s"
| "handle h (ProcessError m) s = onProcessError h m s"
| "handle h SaveTimeout s = saveTimeoutCallback h s"
| "handle h (WriteFileDone err) s = writeFileCallback err s"
| "handle h (WriteFileThrew e) s = writeFileThrew e s"
| "handle h LoadStudentId s = loadStudentId h s"


text \<open>A sequence of events, each with the host as it is then.\<close>

fun run :: "(host \<times> event) list \<Rightarrow> logger \<Rightarrow> logger" where
  "run [] s = s"
| "run ((h, ev) # evs) s = run evs (state_of (handle h ev s))"

section \<open>Notions used in the statements\<close>

text \<open>The requests that arm a timer.\<close>

fun is_SetTimeout :: "effect \<Rightarrow> bool" where
  "is_SetTimeout (SetTimeout t ms) = True"
| "is_SetTimeout x = False"

text \<open>Whether a call returned normally.\<close>

fun returned :: "outcome \<Rightarrow> bool" where
  "returned (Returns s) = True"
| "returned (Throws e s) = False"

text \<open>The path of part \<open>n\<close> of the current log file, and the scan of \<^verbatim>\<open>saveLog\<close> for it.\<close>

definition logPart :: "logger \<Rightarrow> nat \<Rightarrow> string" where
  "logPart s n =
     partPath (path_dirname (logFile s))
       (path_basename_ext (logFile s) (path_extname (logFile s)))
       (path_extname (logFile s)) n"

definition scanLog :: "host \<Rightarrow> logger \<Rightarrow> fs_error + nat" where
  "scanLog h s =
     scanParts (files h) (path_dirname (logFile s))
       (path_basename_ext (logFile s) (path_extname (logFile s)))
       (path_extname (logFile s)) 1"

text \<open>The folder \<^verbatim>\<open>onDocumentChange\<close> puts the log file of a document in.\<close>

definition chosenFolder :: "host \<Rightarrow> logger \<Rightarrow> document \<Rightarrow> string" where
  "chosenFolder h s d =
     (case workspaceFolderOf h d of None \<Rightarrow> logFolder s | Some w \<Rightarrow> path_join w ''.logs'')"

text \<open>The message \<^verbatim>\<open>startPythonExecution\<close> passes when it ends the running execution.\<close>

definition abortReason :: string where
  "abortReason = ''Aborted by new execution''"

text \<open>The object when \<^verbatim>\<open>startPythonExecution\<close> has killed the process of the running execution.\<close>

definition killed :: "execution \<Rightarrow> logger \<Rightarrow> logger" where
  "killed ex s = (case cur_process ex of None \<Rightarrow> s | Some p \<Rightarrow> emit (Kill p) s)"

text \<open>The number of flushes scheduled so far: the timers armed by \<^verbatim>\<open>scheduleSave\<close>.\<close>

definition scheduledFlushes :: "logger \<Rightarrow> nat" where
  "scheduledFlushes s = length (filter is_SetTimeout (emitted s))"

text \<open>
  \<^verbatim>\<open>onDocumentChange\<close>, however it ends, changes the current document, the target and the
  trace only, and arms no timer.
\<close>

definition retargeted :: "logger \<Rightarrow> logger \<Rightarrow> bool" where
  "retargeted s s' \<longleftrightarrow>
     (\<exists>cd lf out. s' = s\<lparr>currentDocument := cd, logFile := lf, emitted := emitted s @ out\<rparr> \<and>
        (\<forall>x \<in> set out. \<not> is_SetTimeout x))"

text \<open>
  A change that inserts two or more characters over an empty range and is not a line break:
  a paste or a completion.
\<close>

definition multiCharInsert :: "content_change \<Rightarrow> bool" where
  "multiCharInsert c \<longleftrightarrow>
     rangeLength c = 0 \<and> 2 \<le> length (change_text c) \<and>
     change_text c \<noteq> [newline] \<and> change_text c \<noteq> [CHR 0x0D, newline]"

text \<open>
  An event in which one character is typed into a Python document that is not ignored:
  one change, of one character over an empty range, with the cursor of the active editor on
  a line of the document, and the log folder of the document there or creatable.
\<close>

definition typesOneChar :: "logger \<Rightarrow> host \<Rightarrow> change_event \<Rightarrow> bool" where
  "typesOneChar s h e \<longleftrightarrow>
     languageId (ev_document e) = ''python'' \<and>
     \<not> shouldIgnoreDocument s (ev_document e) \<and>
     (case contentChanges e of
        [c] \<Rightarrow> length (change_text c) = 1 \<and> rangeLength c = 0
      | _ \<Rightarrow> False) \<and>
     (case activePosition h of
        Some pos \<Rightarrow> line pos < length (doc_lines (ev_document e))
      | None \<Rightarrow> False) \<and>
     (case workspaceFolderOf h (ev_document e) of
        None \<Rightarrow> True
      | Some w \<Rightarrow>
          existsSync (files h) (path_join w ''.logs'') \<or>
          mkdirError h (path_join w ''.logs'') = None)"

text \<open>The text of the first change of an event.\<close>

definition typedKey :: "host \<times> change_event \<Rightarrow> string option" where
  "typedKey he = (case contentChanges (snd he) of c # _ \<Rightarrow> Some (change_text c) | [] \<Rightarrow> None)"

section \<open>Example inputs\<close>

text \<open>
  A host with the workspace \<^verbatim>\<open>/w\<close> and an empty file system, and a logger of the session
  \<^verbatim>\<open>session_20250101_120000\<close> whose current document is \<^verbatim>\<open>/w/a.py\<close>.
\<close>

definition demo_host :: host where
  "demo_host =
     \<lparr>dateNow = 1735732800000,
      localTime = \<lparr>getFullYear = 2025, getMonth = 0, getDate = 1, getHours = 12,
                   getMinutes = 0, getSeconds = 0\<rparr>,
      files = [], mkdirError = (\<lambda>p. None),
      activePosition = Some \<lparr>line = 0, character = 0\<rparr>,
      textDocuments = [], workspaceFolderOf = (\<lambda>d. Some ''/w''),
      workspaceFolders = [''/w''], tmpdir = ''/tmp'', configStudentId = None\<rparr>"

definition demo_logger :: logger where
  "demo_logger =
     \<lparr>logFolder = ''/w/.logs'', sessionId = ''session_20250101_120000'',
      studentId = ''anonymous'', currentDocument = ''/w/a.py'',
      logFile = ''/w/.logs/anonymous_a.py_session_20250101_120000.json'',
      editLog = [], errorLog = [], executionLog = [], isSaving = False,
      saveTimeout = None, currentExecution = None, emitted = []\<rparr>"

definition demo_doc :: document where
  "demo_doc = \<lparr>fileName = ''/w/a.py'', scheme = ''file'', languageId = ''python'', doc_lines = [[]]\<rparr>"

text \<open>The first two parts of that logger's log file, and a file of a given size.\<close>

definition part1 :: string where
  "part1 = ''/w/.logs/anonymous_a.py_session_20250101_120000_part1.json''"

definition part2 :: string where
  "part2 = ''/w/.logs/anonymous_a.py_session_20250101_120000_part2.json''"

definition entry_of_size :: "nat \<Rightarrow> fs_entry" where
  "entry_of_size n = \<lparr>stat_size = Inr n, content = Inr (replicate n (CHR ''x''))\<rparr>"

text \<open>Hosts whose first part is exactly at, and one byte over, the threshold.\<close>

definition full_host :: host where
  "full_host = demo_host\<lparr>files := [(part1, entry_of_size 1048576)]\<rparr>"

definition over_host :: host where
  "over_host = demo_host\<lparr>files := [(part1, entry_of_size 1048577)]\<rparr>"


text \<open>
  A logger with no target yet, the same with one execution record kept in memory, and a
  host whose log folder exists.
\<close>

definition fresh_logger :: logger where
  "fresh_logger = demo_logger\<lparr>currentDocument := [], logFile := []\<rparr>"

definition pending_logger :: logger where
  "pending_logger =
     fresh_logger\<lparr>executionLog :=
       [\<lparr>exe_timestamp = 1735732800000, event = ''execution_start'', exe_file = ''/w/b.py'',
         language = ''python'', exe_output = None, exe_error = None, exitCode = None,
         duration = None\<rparr>]\<rparr>"

definition logs_host :: host where
  "logs_host = demo_host\<lparr>files := [(''/w/.logs'', \<lparr>stat_size = Inr 4096, content = Inl EISDIR\<rparr>)]\<rparr>"

text \<open>Running executions of \<^verbatim>\<open>/w/a.py\<close>, and a host on which that file cannot be read.\<close>

definition run_of :: "string \<Rightarrow> string \<Rightarrow> execution" where
  "run_of out err =
     \<lparr>startTime = 1735732790000, cur_file = ''/w/a.py'', cur_process = Some 7,
      cur_output = out, cur_error = err\<rparr>"

definition quiet_run :: logger where
  "quiet_run = demo_logger\<lparr>currentExecution := Some (run_of ''42'' [])\<rparr>"

definition noisy_run :: logger where
  "noisy_run = demo_logger\<lparr>currentExecution := Some (run_of [] ''warning: deprecated'')\<rparr>"

definition locked_run :: logger where
  "locked_run = demo_logger\<lparr>currentExecution := Some (run_of [] ''Permission denied'')\<rparr>"

definition unreadable_host :: host where
  "unreadable_host =
     demo_host\<lparr>files := [(''/w/a.py'', \<lparr>stat_size = Inr 12, content = Inl EACCES\<rparr>)]\<rparr>"

text \<open>A paste of eight characters at the start of the document.\<close>

definition paste :: content_change where
  "paste =
     \<lparr>change_range = \<lparr>range_start = \<lparr>line = 0, character = 0\<rparr>,
                       range_end = \<lparr>line = 0, character = 0\<rparr>\<rparr>,
      rangeLength = 0, change_text = ''print(1)''\<rparr>"

text \<open>The \<open>i\<close>-th character typed into an empty file \<^verbatim>\<open>/w/a.py\<close>, with the host as it is then.\<close>

definition keystroke :: "nat \<Rightarrow> host \<times> change_event" where
  "keystroke i =
     (logs_host\<lparr>activePosition := Some \<lparr>line = 0, character = i + 1\<rparr>\<rparr>,
      \<lparr>ev_document =
         \<lparr>fileName = ''/w/a.py'', scheme = ''file'', languageId = ''python'',
          doc_lines = [replicate (i + 1) (CHR ''x'')]\<rparr>,
       contentChanges =
         [\<lparr>change_range = \<lparr>range_start = \<lparr>line = 0, character = i\<rparr>,
                            range_end = \<lparr>line = 0, character = i\<rparr>\<rparr>,
           rangeLength = 0, change_text = ''x''\<rparr>]\<rparr>)"

definition twelve_keystrokes :: "(host \<times> change_event) list" where
  "twelve_keystrokes = map keystroke [0..<12]"




section \<open>Flushing\<close>

subsection \<open>The guard, the scan and the write\<close>

lemma saveLog_guard: "logFile s = [] \<or> isSaving s \<Longrightarrow> saveLog h s = Returns s"
  by (simp add: saveLog_def)

lemma saveLog_write:
  assumes "logFile s \<noteq> []" "\<not> isSaving s" "scanLog h s = Inr n"
  shows "saveLog h s = Returns (emit (WriteFile (logPart s n) (logData_of s)) s)"
  using assms
  by (simp add: saveLog_def saveLog_try_def scanLog_def logPart_def Let_def emit_def logData_of_def)

lemma saveLog_caught:
  assumes "logFile s \<noteq> []" "\<not> isSaving s" "scanLog h s = Inl e"
  shows "saveLog h s = Returns (emit (ConsoleError ''Failed to save log:'' (FsError e)) s)"
  using assms
  by (simp add: saveLog_def saveLog_try_def scanLog_def logPart_def Let_def emit_def logData_of_def)

lemma scanParts_stop:
  "scanParts fs d b e k = Inr n \<Longrightarrow>
     k \<le> n \<and>
     (\<not> existsSync fs (partPath d b e n) \<or>
      (\<exists>sz. statSync_size fs (partPath d b e n) = Inr sz \<and> sz \<le> 1048576)) \<and>
     (\<forall>m. k \<le> m \<and> m < n \<longrightarrow>
        existsSync fs (partPath d b e m) \<and>
        (\<exists>sz. statSync_size fs (partPath d b e m) = Inr sz \<and> sz > 1048576))"
proof (induction fs d b e k rule: scanParts.induct)
  case (1 fs d b e k)
  show ?case
  proof (cases "existsSync fs (partPath d b e k)")
    case False
    with "1.prems" show ?thesis
      by (auto simp add: scanParts.simps [of fs d b e k])
  next
    case ex: True
    show ?thesis
    proof (cases "statSync_size fs (partPath d b e k)")
      case (Inl err)
      with ex "1.prems" show ?thesis
        by (simp add: scanParts.simps [of fs d b e k])
    next
      case (Inr sz)
      show ?thesis
      proof (cases "sz > 1024 * 1024")
        case False
        with ex Inr "1.prems" show ?thesis
          by (auto simp add: scanParts.simps [of fs d b e k])
      next
        case big: True
        with ex Inr "1.prems" have rec: "scanParts fs d b e (k + 1) = Inr n"
          by (simp add: scanParts.simps [of fs d b e k])
        from "1.IH" [OF ex Inr big rec]
        have ih: "k + 1 \<le> n"
          "\<not> existsSync fs (partPath d b e n) \<or>
            (\<exists>sz. statSync_size fs (partPath d b e n) = Inr sz \<and> sz \<le> 1048576)"
          "\<forall>m. k + 1 \<le> m \<and> m < n \<longrightarrow>
            existsSync fs (partPath d b e m) \<and>
            (\<exists>sz. statSync_size fs (partPath d b e m) = Inr sz \<and> sz > 1048576)"
          by simp_all
        have "\<forall>m. k \<le> m \<and> m < n \<longrightarrow>
            existsSync fs (partPath d b e m) \<and>
            (\<exists>sz. statSync_size fs (partPath d b e m) = Inr sz \<and> sz > 1048576)"
        proof (intro allI impI)
          fix m assume m: "k \<le> m \<and> m < n"
          show "existsSync fs (partPath d b e m) \<and>
            (\<exists>sz. statSync_size fs (partPath d b e m) = Inr sz \<and> sz > 1048576)"
          proof (cases "m = k")
            case True
            with ex Inr big show ?thesis by simp
          next
            case False
            with m have "k + 1 \<le> m \<and> m < n" by simp
            with ih(3) show ?thesis by blast
          qed
        qed
        with ih(1,2) show ?thesis by simp
      qed
    qed
  qed
qed

lemma scanParts_returns:
  "(\<forall>m. existsSync fs (partPath d b e m) \<longrightarrow> (\<exists>sz. statSync_size fs (partPath d b e m) = Inr sz))
     \<Longrightarrow> \<exists>n. scanParts fs d b e k = Inr n"
proof (induction fs d b e k rule: scanParts.induct)
  case (1 fs d b e k)
  show ?case
  proof (cases "existsSync fs (partPath d b e k)")
    case False
    then show ?thesis
      by (simp add: scanParts.simps [of fs d b e k])
  next
    case ex: True
    with "1.prems" obtain sz where sz: "statSync_size fs (partPath d b e k) = Inr sz"
      by blast
    show ?thesis
    proof (cases "sz > 1024 * 1024")
      case False
      with ex sz show ?thesis
        by (simp add: scanParts.simps [of fs d b e k])
    next
      case big: True
      from "1.IH" [OF ex sz big "1.prems"] obtain n where "scanParts fs d b e (k + 1) = Inr n"
        by blast
      with ex sz big show ?thesis
        by (simp add: scanParts.simps [of fs d b e k])
    qed
  qed
qed

subsection \<open>The example logger\<close>

lemma demo_constructed: "constructor demo_host = Returns (demo_logger\<lparr>currentDocument := [], logFile := [], emitted := [MkdirSync ''/w/.logs'']\<rparr>)"
  by code_simp

lemma demo_logFile_parts:
  "path_extname (logFile demo_logger) = ''.json''"
  "path_basename_ext (logFile demo_logger) ''.json'' = ''anonymous_a.py_session_20250101_120000''"
  "path_dirname (logFile demo_logger) = ''/w/.logs''"
  by code_simp+

lemma demo_logPart:
  "logPart demo_logger n =
     ''/w/.logs/anonymous_a.py_session_20250101_120000_part'' @ string_of_nat n @ ''.json''"
  by (simp add: logPart_def demo_logFile_parts partPath_def path_join_def join_prefix_def
      is_sep_def)

lemma demo_part1: "logPart demo_logger (Suc 0) = part1"
  unfolding demo_logPart part1_def by code_simp

lemma demo_part2: "logPart demo_logger 2 = part2"
  unfolding demo_logPart part2_def by code_simp

lemma demo_target: "onDocumentChange demo_host demo_doc (demo_logger\<lparr>currentDocument := [], logFile := [], emitted := [MkdirSync ''/w/.logs'']\<rparr>)
   = Returns (demo_logger\<lparr>emitted := [MkdirSync ''/w/.logs'', MkdirSync ''/w/.logs'', WriteFile part1 (logData_of demo_logger)]\<rparr>)"
  by code_simp

subsection \<open>The part a flush writes to\<close>

lemma saveLog_shape:
  "saveLog h s = Returns s \<or>
   (\<exists>e. saveLog h s = Returns (emit (ConsoleError ''Failed to save log:'' (FsError e)) s)) \<or>
   (\<exists>n. saveLog h s = Returns (emit (WriteFile (logPart s n) (logData_of s)) s))"
proof (cases "logFile s = [] \<or> isSaving s")
  case True
  then show ?thesis
    by (simp add: saveLog_guard)
next
  case False
  then show ?thesis
    by (cases "scanLog h s") (auto simp add: saveLog_caught saveLog_write)
qed

lemma stat_entry_of_size: "stat_size (entry_of_size n) = Inr n"
  by (simp add: entry_of_size_def)

lemma demo_logger_ready: "logFile demo_logger \<noteq> []" "\<not> isSaving demo_logger"
  by (simp_all add: demo_logger_def)

lemma exists_single: "existsSync [(p, x)] q \<longleftrightarrow> q = p"
  by (auto simp add: existsSync_def)

lemma stat_single: "statSync_size [(p, x)] p = stat_size x"
  by (simp add: statSync_size_def)

lemma files_full_host: "files full_host = [(part1, entry_of_size 1048576)]"
  by (simp add: full_host_def)

lemma files_over_host: "files over_host = [(part1, entry_of_size 1048577)]"
  by (simp add: over_host_def)

text \<open>
  C1, as stated, fails: a part of exactly 1,048,576 bytes is not over the threshold of the
  loop (\<open>size > 1024 * 1024\<close>), so the write goes to that same part.
\<close>

theorem part_at_threshold_is_rewritten:
  "existsSync (files full_host) part1 \<and>
   statSync_size (files full_host) part1 = Inr 1048576 \<and>
   saveLog full_host demo_logger =
     Returns (emit (WriteFile part1 (logData_of demo_logger)) demo_logger)"
proof -
  have "scanLog full_host demo_logger = Inr (Suc 0)"
    using demo_part1
    by (simp add: scanLog_def logPart_def scanParts.simps [of _ _ _ _ "Suc 0"]
        files_full_host exists_single stat_single stat_entry_of_size)
  then have "saveLog full_host demo_logger =
      Returns (emit (WriteFile (logPart demo_logger (Suc 0)) (logData_of demo_logger)) demo_logger)"
    by (rule saveLog_write [OF demo_logger_ready])
  then show ?thesis
    by (simp add: demo_part1 files_full_host exists_single stat_single stat_entry_of_size)
qed

text \<open>
  C1 (amended): a flush that passes the guard, on a file system where the size of every
  existing part can be read, scans the parts from 1 upwards and writes the snapshot to the
  first part that does not exist or whose size is at most 1,048,576 bytes; every part before
  it exists and is larger than that.
\<close>

theorem saveLog_selects_first_part_within_threshold:
  assumes "logFile s \<noteq> []" and "\<not> isSaving s"
    and "\<forall>m. existsSync (files h) (logPart s m) \<longrightarrow>
           (\<exists>sz. statSync_size (files h) (logPart s m) = Inr sz)"
  shows "\<exists>n. 1 \<le> n \<and>
           saveLog h s = Returns (emit (WriteFile (logPart s n) (logData_of s)) s) \<and>
           (\<not> existsSync (files h) (logPart s n) \<or>
            (\<exists>sz. statSync_size (files h) (logPart s n) = Inr sz \<and> sz \<le> 1048576)) \<and>
           (\<forall>m. 1 \<le> m \<and> m < n \<longrightarrow>
              existsSync (files h) (logPart s m) \<and>
              (\<exists>sz. statSync_size (files h) (logPart s m) = Inr sz \<and> sz > 1048576))"
proof -
  from assms(3) obtain n where n: "scanLog h s = Inr n"
    unfolding scanLog_def logPart_def by (blast dest: scanParts_returns)
  from scanParts_stop [OF n [unfolded scanLog_def]]
  have "1 \<le> n"
    and "\<not> existsSync (files h) (logPart s n) \<or>
         (\<exists>sz. statSync_size (files h) (logPart s n) = Inr sz \<and> sz \<le> 1048576)"
    and "\<forall>m. 1 \<le> m \<and> m < n \<longrightarrow>
           existsSync (files h) (logPart s m) \<and>
           (\<exists>sz. statSync_size (files h) (logPart s m) = Inr sz \<and> sz > 1048576)"
    unfolding logPart_def by blast+
  moreover from assms(1,2) n
  have "saveLog h s = Returns (emit (WriteFile (logPart s n) (logData_of s)) s)"
    by (rule saveLog_write)
  ultimately show ?thesis
    by blast
qed

theorem saveLog_selects_first_part_within_threshold_witness:
  "saveLog over_host demo_logger =
     Returns (emit (WriteFile part2 (logData_of demo_logger)) demo_logger) \<and>
   statSync_size (files over_host) part1 = Inr 1048577 \<and>
   \<not> existsSync (files over_host) part2"
proof -
  have ne: "part2 \<noteq> part1"
    by (simp add: part1_def part2_def)
  have stat: "\<forall>m. existsSync (files over_host) (logPart demo_logger m) \<longrightarrow>
      (\<exists>sz. statSync_size (files over_host) (logPart demo_logger m) = Inr sz)"
    by (simp add: files_over_host exists_single stat_single stat_entry_of_size)
  from saveLog_selects_first_part_within_threshold [OF demo_logger_ready stat]
  obtain n where n: "1 \<le> n"
    and save: "saveLog over_host demo_logger =
      Returns (emit (WriteFile (logPart demo_logger n) (logData_of demo_logger)) demo_logger)"
    and stop: "\<not> existsSync (files over_host) (logPart demo_logger n) \<or>
      (\<exists>sz. statSync_size (files over_host) (logPart demo_logger n) = Inr sz \<and> sz \<le> 1048576)"
    and before: "\<forall>m. 1 \<le> m \<and> m < n \<longrightarrow>
      existsSync (files over_host) (logPart demo_logger m) \<and>
      (\<exists>sz. statSync_size (files over_host) (logPart demo_logger m) = Inr sz \<and> sz > 1048576)"
    by blast
  have "n \<noteq> 1"
    using stop by (auto simp add: demo_part1 files_over_host exists_single stat_single
        stat_entry_of_size)
  moreover have "\<not> 2 < n"
  proof
    assume "2 < n"
    with before have "existsSync (files over_host) (logPart demo_logger 2)"
      by simp
    with ne show False
      by (simp add: demo_part2 files_over_host exists_single)
  qed
  ultimately have "n = 2"
    using n by simp
  with save ne show ?thesis
    by (simp add: demo_part2 files_over_host exists_single stat_single stat_entry_of_size)
qed

subsection \<open>A flush with no target\<close>

lemma logData_of_emitted [simp]: "logData_of (s\<lparr>emitted := x\<rparr>) = logData_of s"
  by (simp add: logData_of_def)

lemma logPart_emitted [simp]: "logPart (s\<lparr>emitted := x\<rparr>) n = logPart s n"
  by (simp add: logPart_def)

lemma scanLog_emitted [simp]: "scanLog h (s\<lparr>emitted := x\<rparr>) = scanLog h s"
  by (simp add: scanLog_def)

lemma logFileFor_nonempty: "logFileFor folder s d \<noteq> []"
  by (simp add: logFileFor_def path_join_def)

lemma onDocumentChange_sets_target:
  assumes "\<not> shouldIgnoreDocument s d" and "currentDocument s \<noteq> fileName d"
    and "workspaceFolderOf h d = None \<or> existsSync (files h) (chosenFolder h s d)"
  shows "onDocumentChange h d s =
           saveLog h (s\<lparr>currentDocument := fileName d,
                        logFile := logFileFor (chosenFolder h s d) s d\<rparr>)"
  using assms
  by (auto simp add: onDocumentChange_def chosenFolder_def ensureFolder_def and_then_def
      logFileFor_def Let_def split: option.splits)

text \<open>
  C10: with no target set (\<^verbatim>\<open>logFile\<close> is the empty string) a flush, called directly or by
  the timer, returns the object as it was and adds nothing to the trace: no file is written
  and every record stays in memory. When a document change then sets the target (the
  document is not ignored and differs from the current one, its log folder needs no
  creation, and the scan of the parts succeeds), the flush made by that same call writes a
  snapshot that holds all the records kept until then.
\<close>

theorem flush_without_target_is_noop:
  "(logFile s = [] \<longrightarrow> saveLog h s = Returns s \<and> saveTimeoutCallback h s = Returns s) \<and>
   (logFile s = [] \<and> \<not> isSaving s \<and> \<not> shouldIgnoreDocument s d \<and>
    currentDocument s \<noteq> fileName d \<and>
    (workspaceFolderOf h d = None \<or> existsSync (files h) (chosenFolder h s d)) \<longrightarrow>
      (\<forall>n. scanLog h (s\<lparr>logFile := logFileFor (chosenFolder h s d) s d\<rparr>) = Inr n \<longrightarrow>
         onDocumentChange h d s =
           Returns (s\<lparr>currentDocument := fileName d,
                      logFile := logFileFor (chosenFolder h s d) s d,
                      emitted := emitted s @
                        [WriteFile (logPart (s\<lparr>logFile := logFileFor (chosenFolder h s d) s d\<rparr>) n)
                           \<lparr>ld_studentId = studentId s, ld_sessionId = sessionId s,
                            ld_fileName = fileName d, ld_editLog = editLog s,
                            ld_errorLog = errorLog s, ld_executionLog = executionLog s\<rparr>]\<rparr>)))"
proof (intro conjI impI allI)
  assume "logFile s = []"
  then show "saveLog h s = Returns s" "saveTimeoutCallback h s = Returns s"
    by (simp_all add: saveLog_guard saveTimeoutCallback_def)
next
  fix n
  let ?t = "logFileFor (chosenFolder h s d) s d"
  let ?s' = "s\<lparr>currentDocument := fileName d, logFile := ?t\<rparr>"
  assume a: "logFile s = [] \<and> \<not> isSaving s \<and> \<not> shouldIgnoreDocument s d \<and>
    currentDocument s \<noteq> fileName d \<and>
    (workspaceFolderOf h d = None \<or> existsSync (files h) (chosenFolder h s d))"
    and n: "scanLog h (s\<lparr>logFile := ?t\<rparr>) = Inr n"
  from a have "onDocumentChange h d s = saveLog h ?s'"
    by (intro onDocumentChange_sets_target) simp_all
  moreover have "scanLog h ?s' = Inr n"
    using n by (simp add: scanLog_def)
  then have "saveLog h ?s' = Returns (emit (WriteFile (logPart ?s' n) (logData_of ?s')) ?s')"
    using a by (intro saveLog_write) (simp_all add: logFileFor_nonempty)
  ultimately show "onDocumentChange h d s =
      Returns (s\<lparr>currentDocument := fileName d, logFile := ?t,
        emitted := emitted s @
          [WriteFile (logPart (s\<lparr>logFile := ?t\<rparr>) n)
             \<lparr>ld_studentId = studentId s, ld_sessionId = sessionId s,
              ld_fileName = fileName d, ld_editLog = editLog s,
              ld_errorLog = errorLog s, ld_executionLog = executionLog s\<rparr>]\<rparr>)"
    by (simp add: emit_def logData_of_def logPart_def)
qed

theorem flush_without_target_is_noop_witness:
  "saveLog logs_host pending_logger = Returns pending_logger \<and>
   onDocumentChange logs_host demo_doc pending_logger =
     Returns (pending_logger\<lparr>currentDocument := ''/w/a.py'',
       logFile := ''/w/.logs/anonymous_a.py_session_20250101_120000.json'',
       emitted := [WriteFile part1
         \<lparr>ld_studentId = ''anonymous'', ld_sessionId = ''session_20250101_120000'',
          ld_fileName = ''/w/a.py'', ld_editLog = [], ld_errorLog = [],
          ld_executionLog = executionLog pending_logger\<rparr>]\<rparr>)"
proof -
  have fields: "logFile pending_logger = []" "\<not> isSaving pending_logger"
    "currentDocument pending_logger \<noteq> fileName demo_doc" "emitted pending_logger = []"
    "studentId pending_logger = ''anonymous''"
    "sessionId pending_logger = ''session_20250101_120000''"
    "editLog pending_logger = []" "errorLog pending_logger = []"
    "fileName demo_doc = ''/w/a.py''"
    by (simp_all add: pending_logger_def fresh_logger_def demo_logger_def demo_doc_def)
  have ign: "\<not> shouldIgnoreDocument pending_logger demo_doc"
    by code_simp
  have folder: "chosenFolder logs_host pending_logger demo_doc = ''/w/.logs''"
    by code_simp
  have ex: "existsSync (files logs_host) ''/w/.logs''"
    by code_simp
  have target: "logFileFor ''/w/.logs'' pending_logger demo_doc = logFile demo_logger"
    by code_simp
  have same: "pending_logger\<lparr>logFile := logFile demo_logger\<rparr> =
      demo_logger\<lparr>currentDocument := [], executionLog := executionLog pending_logger\<rparr>"
    by (simp add: pending_logger_def fresh_logger_def demo_logger_def)
  have part: "logPart (pending_logger\<lparr>logFile := logFile demo_logger\<rparr>) (Suc 0) = part1"
    using demo_part1 by (simp add: logPart_def)
  have scan: "scanLog logs_host (pending_logger\<lparr>logFile := logFile demo_logger\<rparr>) = Inr (Suc 0)"
    using part
    by (simp add: scanLog_def logPart_def scanParts.simps [of _ _ _ _ "Suc 0"] logs_host_def
        exists_single part1_def)
  show ?thesis
    using flush_without_target_is_noop [of pending_logger logs_host demo_doc]
      fields ign ex scan part
    by (simp add: folder target) (simp add: demo_logger_def)
qed

section \<open>Executions\<close>

subsection \<open>The error record\<close>

lemma js_split_not_Nil [simp]: "js_split c xs \<noteq> []"
  by (induction xs) (auto split: list.splits)

lemma js_join_Cons: "js_join sep (p # ps) = (if ps = [] then p else p @ sep @ js_join sep ps)"
  by (cases ps) simp_all

lemma js_join_split: "js_join [c] (js_split c xs) = xs"
proof (induction xs)
  case Nil
  show ?case by simp
next
  case (Cons x xs)
  obtain p ps where r: "js_split c xs = p # ps"
    by (cases "js_split c xs") simp_all
  with Cons.IH show ?case
    by (auto simp add: js_join_Cons split: if_splits)
qed

lemma hd_js_split: "hd (js_split c xs) = takeWhile (\<lambda>x. x \<noteq> c) xs"
proof (induction xs)
  case Nil
  show ?case by simp
next
  case (Cons x xs)
  obtain p ps where r: "js_split c xs = p # ps"
    by (cases "js_split c xs") simp_all
  with Cons.IH show ?case
    by auto
qed

lemma length_js_split: "1 < length (js_split c xs) \<longleftrightarrow> c \<in> set xs"
proof (induction xs)
  case Nil
  show ?case by simp
next
  case (Cons x xs)
  obtain p ps where r: "js_split c xs = p # ps"
    by (cases "js_split c xs") simp_all
  with Cons.IH show ?case
    by auto
qed

lemma js_split_first_line:
  assumes "c \<in> set xs"
  shows "xs = hd (js_split c xs) @ [c] @ js_join [c] (tl (js_split c xs))"
proof -
  obtain p ps where r: "js_split c xs = p # ps"
    by (cases "js_split c xs") simp_all
  with assms length_js_split [of c xs] have "ps \<noteq> []"
    by auto
  with r js_join_split [of c xs] show ?thesis
    by (simp add: js_join_Cons)
qed

lemma first_line_no_sep: "c \<notin> set (hd (js_split c xs))"
  by (auto simp add: hd_js_split dest: set_takeWhileD)

lemma scheduleSave_fields [simp]:
  "logFolder (scheduleSave s) = logFolder s"
  "sessionId (scheduleSave s) = sessionId s"
  "studentId (scheduleSave s) = studentId s"
  "currentDocument (scheduleSave s) = currentDocument s"
  "logFile (scheduleSave s) = logFile s"
  "editLog (scheduleSave s) = editLog s"
  "errorLog (scheduleSave s) = errorLog s"
  "executionLog (scheduleSave s) = executionLog s"
  "isSaving (scheduleSave s) = isSaving s"
  "currentExecution (scheduleSave s) = currentExecution s"
  by (simp_all add: scheduleSave_def emit_def Let_def split: option.splits)

lemma logPythonError_throws:
  "snapshotCode h f = Inl e \<Longrightarrow> logPythonError h f msg s = Throws (FsError e) s"
  by (simp add: logPythonError_def Let_def)

lemma logPythonError_returns:
  assumes "snapshotCode h f = Inr c" and "js_split newline msg = first # rest"
  shows "logPythonError h f msg s =
     Returns (s\<lparr>errorLog := errorLog s @
       [\<lparr>err_timestamp = dateNow h,
         message = (if rest = [] then msg else first),
         stack = (if rest = [] then None else Some (js_join [newline] rest)),
         code = Some c, err_event = Some ''python_execution_error'',
         err_language = Some ''python''\<rparr>]\<rparr>)"
  using assms by (simp add: logPythonError_def Let_def)

text \<open>
  C5: the error record of a failed run is built from the split of the error text on
  newlines. With the text split into a first line and the rest: when the rest is empty (the
  text has no newline) the message is the whole text and the stack is null; otherwise the
  message is the first line, which holds no newline, the stack is the remaining lines
  joined by newlines, and message, newline and stack together are the text again. The
  record is appended whenever the snapshot of the target file does not raise. It holds for
  the empty text as well.
\<close>

theorem logPythonError_message_and_stack:
  assumes "snapshotCode h f = Inr c" and "js_split newline msg = first # rest"
  shows "logPythonError h f msg s =
           Returns (s\<lparr>errorLog := errorLog s @
             [\<lparr>err_timestamp = dateNow h,
               message = (if rest = [] then msg else first),
               stack = (if rest = [] then None else Some (js_join [newline] rest)),
               code = Some c, err_event = Some ''python_execution_error'',
               err_language = Some ''python''\<rparr>]\<rparr>) \<and>
         (rest = [] \<longleftrightarrow> newline \<notin> set msg) \<and>
         (rest \<noteq> [] \<longrightarrow> msg = first @ [newline] @ js_join [newline] rest) \<and>
         newline \<notin> set first"
proof (intro conjI)
  show "logPythonError h f msg s =
      Returns (s\<lparr>errorLog := errorLog s @
        [\<lparr>err_timestamp = dateNow h,
          message = (if rest = [] then msg else first),
          stack = (if rest = [] then None else Some (js_join [newline] rest)),
          code = Some c, err_event = Some ''python_execution_error'',
          err_language = Some ''python''\<rparr>]\<rparr>)"
    using assms by (rule logPythonError_returns)
  show iff: "rest = [] \<longleftrightarrow> newline \<notin> set msg"
    using length_js_split [of newline msg] assms(2) by auto
  show "rest \<noteq> [] \<longrightarrow> msg = first @ [newline] @ js_join [newline] rest"
    using js_split_first_line [of newline msg] iff assms(2) by auto
  show "newline \<notin> set first"
    using first_line_no_sep [of newline msg] assms(2) by simp
qed

theorem logPythonError_message_and_stack_witness:
  "logPythonError demo_host ''/w/a.py''
       (''SyntaxError: bad token'' @ [newline] @ ''  at line 3'') demo_logger =
     Returns (demo_logger\<lparr>errorLog :=
       [\<lparr>err_timestamp = 1735732800000, message = ''SyntaxError: bad token'',
         stack = Some ''  at line 3'', code = Some [],
         err_event = Some ''python_execution_error'', err_language = Some ''python''\<rparr>]\<rparr>) \<and>
   logPythonError demo_host ''/w/a.py'' ''boom'' demo_logger =
     Returns (demo_logger\<lparr>errorLog :=
       [\<lparr>err_timestamp = 1735732800000, message = ''boom'', stack = None, code = Some [],
         err_event = Some ''python_execution_error'', err_language = Some ''python''\<rparr>]\<rparr>)"
proof -
  have snap: "snapshotCode demo_host ''/w/a.py'' = Inr []"
    by code_simp
  have two: "js_split newline (''SyntaxError: bad token'' @ [newline] @ ''  at line 3'') =
      [''SyntaxError: bad token'', ''  at line 3'']"
    by code_simp
  have one: "js_split newline ''boom'' = [''boom'']"
    by code_simp
  have fields: "errorLog demo_logger = []" "dateNow demo_host = 1735732800000"
    by (simp_all add: demo_logger_def demo_host_def)
  show ?thesis
    using logPythonError_message_and_stack [OF snap two, of demo_logger]
      logPythonError_message_and_stack [OF snap one, of demo_logger]
    by (simp add: fields)
qed

subsection \<open>Finishing an execution\<close>

lemma finishExecution_idle: "currentExecution s = None \<Longrightarrow> finishExecution h c m s = Returns s"
  by (simp add: finishExecution_def)

lemma finishExecution_clean:
  assumes "currentExecution s = Some ex" and "cur_error ex = []" and "\<not> truthy m"
  shows "finishExecution h 0 m s =
     Returns (scheduleSave
       (s\<lparr>executionLog := executionLog s @ [executionEndInfo h ex 0 m],
          currentExecution := None\<rparr>))"
  using assms by (simp add: finishExecution_def and_then_def truthy_def Let_def)

lemma finishExecution_failed:
  assumes "currentExecution s = Some ex"
    and "c \<noteq> 0 \<or> cur_error ex \<noteq> [] \<or> truthy m"
  shows "finishExecution h c m s =
     and_then
       (logPythonError h (cur_file ex)
          (or_default (js_or (Some (cur_error ex)) m) ''Unknown error'')
          (s\<lparr>executionLog := executionLog s @ [executionEndInfo h ex c m]\<rparr>))
       (\<lambda>s2. Returns (scheduleSave (s2\<lparr>currentExecution := None\<rparr>)))"
  using assms by (auto simp add: finishExecution_def truthy_def Let_def)

lemma logPythonError_outcome:
  "(\<exists>e. logPythonError h f msg s = Throws e s) \<or>
   (\<exists>r. logPythonError h f msg s = Returns (s\<lparr>errorLog := errorLog s @ [r]\<rparr>))"
proof (cases "snapshotCode h f")
  case (Inl e)
  then show ?thesis
    by (simp add: logPythonError_throws)
next
  case (Inr c)
  obtain first rest where "js_split newline msg = first # rest"
    by (cases "js_split newline msg") simp_all
  with Inr have "\<exists>r. logPythonError h f msg s = Returns (s\<lparr>errorLog := errorLog s @ [r]\<rparr>)"
    by (intro exI) (rule logPythonError_returns)
  then show ?thesis ..
qed

text \<open>What a call of \<^verbatim>\<open>finishExecution\<close> on a running execution leaves behind.\<close>

lemma finishExecution_running:
  assumes "currentExecution s = Some ex"
  shows "(\<exists>e. finishExecution h c m s =
            Throws e (s\<lparr>executionLog := executionLog s @ [executionEndInfo h ex c m]\<rparr>)) \<or>
         (\<exists>s'. finishExecution h c m s = Returns s' \<and>
            executionLog s' = executionLog s @ [executionEndInfo h ex c m] \<and>
            currentExecution s' = None)"
proof (cases "c \<noteq> 0 \<or> cur_error ex \<noteq> [] \<or> truthy m")
  case False
  with assms show ?thesis
    by (simp add: finishExecution_clean)
next
  case True
  let ?s1 = "s\<lparr>executionLog := executionLog s @ [executionEndInfo h ex c m]\<rparr>"
  let ?msg = "or_default (js_or (Some (cur_error ex)) m) ''Unknown error''"
  from logPythonError_outcome [of h "cur_file ex" ?msg ?s1] show ?thesis
  proof (elim disjE exE)
    fix e
    assume "logPythonError h (cur_file ex) ?msg ?s1 = Throws e ?s1"
    with assms True show ?thesis
      by (simp add: finishExecution_failed and_then_def)
  next
    fix r
    assume "logPythonError h (cur_file ex) ?msg ?s1 = Returns (?s1\<lparr>errorLog := errorLog ?s1 @ [r]\<rparr>)"
    with assms True show ?thesis
      by (simp add: finishExecution_failed and_then_def)
  qed
qed

lemma finishExecution_idempotent_when_returned:
  assumes "finishExecution h c m s = Returns s1"
  shows "finishExecution h' c' m' s1 = Returns s1"
proof (cases "currentExecution s")
  case None
  with assms show ?thesis
    by (simp add: finishExecution_idle)
next
  case (Some ex)
  from finishExecution_running [OF Some, of h c m] assms
  have "currentExecution s1 = None"
    by auto
  then show ?thesis
    by (rule finishExecution_idle)
qed

text \<open>
  C9: an exit signal with a null code, on a run whose accumulated stderr is empty, ends the
  run with exit code 0: the \<^verbatim>\<open>execution_end\<close> record has exit code 0 and no error text, the
  call returns normally, and no error record is derived (the error log is unchanged).
\<close>

theorem null_exit_code_is_recorded_as_success:
  assumes "currentExecution s = Some ex" and "cur_error ex = []"
  shows "onProcessExit h None s =
           Returns (scheduleSave
             (s\<lparr>executionLog := executionLog s @
                  [\<lparr>exe_timestamp = dateNow h, event = ''execution_end'',
                    exe_file = cur_file ex, language = ''python'',
                    exe_output = Some (cur_output ex), exe_error = None,
                    exitCode = Some 0, duration = Some (dateNow h - startTime ex)\<rparr>],
                currentExecution := None\<rparr>)) \<and>
         errorLog (state_of (onProcessExit h None s)) = errorLog s"
proof -
  have "onProcessExit h None s =
      Returns (scheduleSave
        (s\<lparr>executionLog := executionLog s @ [executionEndInfo h ex 0 None],
           currentExecution := None\<rparr>))"
    using assms by (simp add: onProcessExit_def finishExecution_clean truthy_def)
  moreover have "executionEndInfo h ex 0 None =
      \<lparr>exe_timestamp = dateNow h, event = ''execution_end'',
       exe_file = cur_file ex, language = ''python'',
       exe_output = Some (cur_output ex), exe_error = None,
       exitCode = Some 0, duration = Some (dateNow h - startTime ex)\<rparr>"
    using assms(2) by (simp add: executionEndInfo_def js_or_def truthy_def)
  ultimately show ?thesis
    by simp
qed

theorem null_exit_code_is_recorded_as_success_witness:
  "map exitCode (executionLog (state_of (onProcessExit demo_host None quiet_run))) = [Some 0] \<and>
   map exe_error (executionLog (state_of (onProcessExit demo_host None quiet_run))) = [None] \<and>
   errorLog (state_of (onProcessExit demo_host None quiet_run)) = []"
proof -
  have run: "currentExecution quiet_run = Some (run_of ''42'' [])"
    "cur_error (run_of ''42'' []) = []"
    "executionLog quiet_run = []" "errorLog quiet_run = []"
    by (simp_all add: quiet_run_def run_of_def demo_logger_def)
  show ?thesis
    using null_exit_code_is_recorded_as_success [OF run(1,2), of demo_host]
    by (simp add: run)
qed

subsection \<open>Starting a run while another is running\<close>

lemma saveLog_frame:
  "\<exists>out. saveLog h s = Returns (s\<lparr>emitted := emitted s @ out\<rparr>) \<and>
         (\<forall>x \<in> set out. \<not> is_SetTimeout x)"
  using saveLog_shape [of h s]
proof (elim disjE exE)
  assume "saveLog h s = Returns s"
  then have "saveLog h s = Returns (s\<lparr>emitted := emitted s @ []\<rparr>) \<and>
      (\<forall>x \<in> set []. \<not> is_SetTimeout x)"
    by simp
  then show ?thesis
    by (rule exI [where x = "[]"])
next
  fix e
  let ?out = "[ConsoleError ''Failed to save log:'' (FsError e)]"
  assume "saveLog h s = Returns (emit (ConsoleError ''Failed to save log:'' (FsError e)) s)"
  then have "saveLog h s = Returns (s\<lparr>emitted := emitted s @ ?out\<rparr>) \<and>
      (\<forall>x \<in> set ?out. \<not> is_SetTimeout x)"
    by (simp add: emit_def)
  then show ?thesis
    by (rule exI [where x = ?out])
next
  fix n
  let ?out = "[WriteFile (logPart s n) (logData_of s)]"
  assume "saveLog h s = Returns (emit (WriteFile (logPart s n) (logData_of s)) s)"
  then have "saveLog h s = Returns (s\<lparr>emitted := emitted s @ ?out\<rparr>) \<and>
      (\<forall>x \<in> set ?out. \<not> is_SetTimeout x)"
    by (simp add: emit_def)
  then show ?thesis
    by (rule exI [where x = ?out])
qed

lemma retargetedI:
  "s' = s\<lparr>currentDocument := cd, logFile := lf, emitted := emitted s @ out\<rparr> \<Longrightarrow>
   \<forall>x \<in> set out. \<not> is_SetTimeout x \<Longrightarrow> retargeted s s'"
  unfolding retargeted_def by blast

lemma retargeted_refl: "retargeted s s"
  by (rule retargetedI [where cd = "currentDocument s" and lf = "logFile s" and out = "[]"])
    simp_all

lemma retargeted_saveLog:
  assumes "s1 = s\<lparr>currentDocument := cd, logFile := lf, emitted := emitted s @ out\<rparr>"
    and "\<forall>x \<in> set out. \<not> is_SetTimeout x"
  shows "\<exists>s2. saveLog h s1 = Returns s2 \<and> retargeted s s2"
proof -
  from saveLog_frame [of h s1] obtain out' where
    r: "saveLog h s1 = Returns (s1\<lparr>emitted := emitted s1 @ out'\<rparr>)"
    and t: "\<forall>x \<in> set out'. \<not> is_SetTimeout x"
    by blast
  have "retargeted s (s1\<lparr>emitted := emitted s1 @ out'\<rparr>)"
    by (rule retargetedI [where cd = cd and lf = lf and out = "out @ out'"])
      (use assms t in auto)
  with r show ?thesis
    by blast
qed

lemma onDocumentChange_frame: "retargeted s (state_of (onDocumentChange h d s))"
proof (cases "shouldIgnoreDocument s d \<or> currentDocument s = fileName d")
  case True
  then have "onDocumentChange h d s = Returns s"
    by (auto simp add: onDocumentChange_def)
  then show ?thesis
    by (simp add: retargeted_refl)
next
  case False
  show ?thesis
  proof (cases "workspaceFolderOf h d")
    case None
    let ?s1 = "s\<lparr>currentDocument := fileName d, logFile := logFileFor (logFolder s) s d\<rparr>"
    from False None have "onDocumentChange h d s = saveLog h ?s1"
      by (simp add: onDocumentChange_def Let_def logFileFor_def)
    moreover have "\<exists>s2. saveLog h ?s1 = Returns s2 \<and> retargeted s s2"
      by (rule retargeted_saveLog
            [where cd = "fileName d" and lf = "logFileFor (logFolder s) s d" and out = "[]"])
        simp_all
    ultimately show ?thesis
      by auto
  next
    case (Some w)
    let ?f = "path_join w ''.logs''"
    let ?s1 = "s\<lparr>currentDocument := fileName d\<rparr>"
    from False Some have unfold: "onDocumentChange h d s =
        and_then (ensureFolder h ?f ?s1) (\<lambda>s2. saveLog h (s2\<lparr>logFile := logFileFor ?f s2 d\<rparr>))"
      by (simp add: onDocumentChange_def Let_def)
    consider (throws) e where "ensureFolder h ?f ?s1 = Throws (FsError e) ?s1"
      | (there) "ensureFolder h ?f ?s1 = Returns ?s1"
      | (made) "ensureFolder h ?f ?s1 = Returns (emit (MkdirSync ?f) ?s1)"
    proof (cases "existsSync (files h) ?f")
      case True
      then have "ensureFolder h ?f ?s1 = Returns ?s1"
        by (simp add: ensureFolder_def)
      then show ?thesis
        by (rule there)
    next
      case False
      show ?thesis
      proof (cases "mkdirError h ?f")
        case None
        with False have "ensureFolder h ?f ?s1 = Returns (emit (MkdirSync ?f) ?s1)"
          by (simp add: ensureFolder_def)
        then show ?thesis
          by (rule made)
      next
        case (Some e)
        with False have "ensureFolder h ?f ?s1 = Throws (FsError e) ?s1"
          by (simp add: ensureFolder_def)
        then show ?thesis
          by (rule throws)
      qed
    qed
    then show ?thesis
    proof cases
      case throws
      with unfold have "state_of (onDocumentChange h d s) = ?s1"
        by (simp add: and_then_def)
      moreover have "retargeted s ?s1"
        by (rule retargetedI [where cd = "fileName d" and lf = "logFile s" and out = "[]"])
          simp_all
      ultimately show ?thesis
        by simp
    next
      case there
      let ?s2 = "?s1\<lparr>logFile := logFileFor ?f ?s1 d\<rparr>"
      from there unfold have "onDocumentChange h d s = saveLog h ?s2"
        by (simp add: and_then_def)
      moreover have "\<exists>s3. saveLog h ?s2 = Returns s3 \<and> retargeted s s3"
        by (rule retargeted_saveLog
              [where cd = "fileName d" and lf = "logFileFor ?f ?s1 d" and out = "[]"])
          simp_all
      ultimately show ?thesis
        by auto
    next
      case made
      let ?s2 = "(emit (MkdirSync ?f) ?s1)\<lparr>logFile := logFileFor ?f (emit (MkdirSync ?f) ?s1) d\<rparr>"
      from made unfold have "onDocumentChange h d s = saveLog h ?s2"
        by (simp add: and_then_def)
      moreover have "\<exists>s3. saveLog h ?s2 = Returns s3 \<and> retargeted s s3"
        by (rule retargeted_saveLog
              [where cd = "fileName d" and lf = "logFileFor ?f (emit (MkdirSync ?f) ?s1) d"
                and out = "[MkdirSync ?f]"])
          (simp_all add: emit_def)
      ultimately show ?thesis
        by auto
    qed
  qed
qed

lemma retargeted_fields:
  assumes "retargeted s s'"
  shows "editLog s' = editLog s" "errorLog s' = errorLog s" "executionLog s' = executionLog s"
    "sessionId s' = sessionId s" "studentId s' = studentId s"
    "currentExecution s' = currentExecution s" "isSaving s' = isSaving s"
  using assms unfolding retargeted_def by auto

lemma killed_fields [simp]:
  "currentExecution (killed ex s) = currentExecution s"
  "executionLog (killed ex s) = executionLog s"
  "errorLog (killed ex s) = errorLog s"
  by (simp_all add: killed_def emit_def split: option.splits)

lemma startPythonExecution_running:
  assumes "currentExecution s = Some ex"
  shows "startPythonExecution h f s =
     and_then (finishExecution h 1 (Some abortReason) (killed ex s))
       (\<lambda>s1.
          and_then
            (case find (\<lambda>doc. fileName doc = f) (textDocuments h) of
               None \<Rightarrow>
                 Returns (s1\<lparr>currentExecution :=
                   Some \<lparr>startTime = dateNow h, cur_file = f, cur_process = None,
                         cur_output = [], cur_error = []\<rparr>\<rparr>)
             | Some doc \<Rightarrow>
                 onDocumentChange h doc (s1\<lparr>currentExecution :=
                   Some \<lparr>startTime = dateNow h, cur_file = f, cur_process = None,
                         cur_output = [], cur_error = []\<rparr>\<rparr>))
            (\<lambda>s3. Returns (scheduleSave
               (s3\<lparr>executionLog := executionLog s3 @ [executionStartInfo h f]\<rparr>))))"
  using assms by (simp add: startPythonExecution_def killed_def abortReason_def Let_def)

lemma startPythonExecution_log:
  assumes "currentExecution s = Some ex"
  shows "case startPythonExecution h f s of
           Returns s' \<Rightarrow>
             executionLog s' =
               executionLog s @ [executionEndInfo h ex 1 (Some abortReason), executionStartInfo h f]
         | Throws e s' \<Rightarrow>
             executionLog s' = executionLog s @ [executionEndInfo h ex 1 (Some abortReason)]"
proof -
  let ?end = "executionEndInfo h ex 1 (Some abortReason)"
  let ?new = "\<lparr>startTime = dateNow h, cur_file = f, cur_process = None,
               cur_output = [], cur_error = []\<rparr>"
  have run: "currentExecution (killed ex s) = Some ex"
    using assms by simp
  from finishExecution_running [OF run, of h 1 "Some abortReason"]
  consider (throws) e where "finishExecution h 1 (Some abortReason) (killed ex s) =
        Throws e ((killed ex s)\<lparr>executionLog := executionLog (killed ex s) @ [?end]\<rparr>)"
    | (returns) s1 where "finishExecution h 1 (Some abortReason) (killed ex s) = Returns s1"
        "executionLog s1 = executionLog (killed ex s) @ [?end]"
    by blast
  then show ?thesis
  proof cases
    case throws
    then show ?thesis
      by (simp add: startPythonExecution_running [OF assms] and_then_def)
  next
    case returns
    let ?s2 = "s1\<lparr>currentExecution := Some ?new\<rparr>"
    let ?inner = "case find (\<lambda>doc. fileName doc = f) (textDocuments h) of
                    None \<Rightarrow> Returns ?s2 | Some doc \<Rightarrow> onDocumentChange h doc ?s2"
    have frame: "executionLog (state_of ?inner) = executionLog ?s2"
    proof (cases "find (\<lambda>doc. fileName doc = f) (textDocuments h)")
      case None
      then show ?thesis by simp
    next
      case (Some doc)
      then show ?thesis
        using retargeted_fields(3) [OF onDocumentChange_frame [of ?s2 h doc]] by simp
    qed
    have start: "startPythonExecution h f s =
        and_then ?inner (\<lambda>s3. Returns (scheduleSave
          (s3\<lparr>executionLog := executionLog s3 @ [executionStartInfo h f]\<rparr>)))"
      using returns(1) by (simp add: startPythonExecution_running [OF assms] and_then_def)
    show ?thesis
    proof (cases ?inner)
      case (Returns s3)
      with frame returns(2) have "executionLog s3 = executionLog s @ [?end]"
        by simp
      with Returns start show ?thesis
        by (simp add: and_then_def)
    next
      case (Throws e s3)
      with frame returns(2) have "executionLog s3 = executionLog s @ [?end]"
        by simp
      with Throws start show ?thesis
        by (simp add: and_then_def)
    qed
  qed
qed

lemma startPythonExecution_result:
  assumes "currentExecution s = Some ex"
    and "snapshotCode h (cur_file ex) = Inr c"
    and "find (\<lambda>doc. fileName doc = f) (textDocuments h) = None"
    and "js_split newline
           (or_default (js_or (Some (cur_error ex)) (Some abortReason)) ''Unknown error'') =
         first # rest"
  shows "startPythonExecution h f s =
     Returns (scheduleSave
       ((scheduleSave
          ((killed ex s)\<lparr>executionLog :=
               executionLog s @ [executionEndInfo h ex 1 (Some abortReason)],
             errorLog := errorLog s @
               [\<lparr>err_timestamp = dateNow h,
                 message = (if rest = []
                   then or_default (js_or (Some (cur_error ex)) (Some abortReason)) ''Unknown error''
                   else first),
                 stack = (if rest = [] then None else Some (js_join [newline] rest)),
                 code = Some c, err_event = Some ''python_execution_error'',
                 err_language = Some ''python''\<rparr>],
             currentExecution := None\<rparr>))
        \<lparr>currentExecution :=
           Some \<lparr>startTime = dateNow h, cur_file = f, cur_process = None,
                 cur_output = [], cur_error = []\<rparr>,
         executionLog :=
           executionLog s @ [executionEndInfo h ex 1 (Some abortReason), executionStartInfo h f]\<rparr>))"
proof -
  have run: "currentExecution (killed ex s) = Some ex"
    using assms(1) by simp
  show ?thesis
    using assms(3)
    by (simp add: startPythonExecution_running [OF assms(1)]
        finishExecution_failed [OF run, of 1 "Some abortReason" h]
        logPythonError_returns [OF assms(2) assms(4)] and_then_def)
qed

lemma exe_error_of_abort:
  "exe_error (executionEndInfo h ex 1 (Some abortReason)) =
     Some (if cur_error ex \<noteq> [] then cur_error ex else abortReason)"
  by (simp add: executionEndInfo_def js_or_def truthy_def)

text \<open>
  C2, as stated, fails: when the superseded run has accumulated stderr text, its
  \<^verbatim>\<open>execution_end\<close> record carries that text as its error, and the abort reason is in
  neither the execution log nor the error log.
\<close>

theorem abort_reason_lost_when_stderr_present:
  "map event (executionLog (state_of (startPythonExecution demo_host ''/w/b.py'' noisy_run))) =
     [''execution_end'', ''execution_start''] \<and>
   map exe_error (executionLog (state_of (startPythonExecution demo_host ''/w/b.py'' noisy_run))) =
     [Some ''warning: deprecated'', None] \<and>
   map message (errorLog (state_of (startPythonExecution demo_host ''/w/b.py'' noisy_run))) =
     [''warning: deprecated'']"
proof -
  have run: "currentExecution noisy_run = Some (run_of [] ''warning: deprecated'')"
    by (simp add: noisy_run_def)
  have snap: "snapshotCode demo_host (cur_file (run_of [] ''warning: deprecated'')) = Inr []"
    by code_simp
  have docs: "find (\<lambda>doc. fileName doc = ''/w/b.py'') (textDocuments demo_host) = None"
    by (simp add: demo_host_def)
  have split: "js_split newline
      (or_default (js_or (Some (cur_error (run_of [] ''warning: deprecated''))) (Some abortReason))
         ''Unknown error'') = [''warning: deprecated'']"
    by code_simp
  have logs: "executionLog noisy_run = []" "errorLog noisy_run = []"
    by (simp_all add: noisy_run_def demo_logger_def)
  have msg: "or_default (js_or (Some (cur_error (run_of [] ''warning: deprecated''))) (Some abortReason))
      ''Unknown error'' = ''warning: deprecated''"
    by code_simp
  show ?thesis
    by (simp add: startPythonExecution_result [OF run snap docs split] logs
        executionEndInfo_def executionStartInfo_def js_or_def truthy_def run_of_def
        or_default_def)
qed

text \<open>
  C2 (amended): when an execution is running, starting a second run appends exactly one
  \<^verbatim>\<open>execution_end\<close> record for the superseded run, with exit code 1 and, as its error text,
  the accumulated stderr when that is not empty and "Aborted by new execution" only when
  it is empty; when the call returns normally the new run's \<^verbatim>\<open>execution_start\<close> record
  follows it directly, and when the call is left by an exception that record is the last.
\<close>

theorem second_run_closes_the_first:
  assumes "currentExecution s = Some ex"
  shows "(case startPythonExecution h f s of
            Returns s' \<Rightarrow>
              executionLog s' = executionLog s @
                [executionEndInfo h ex 1 (Some ''Aborted by new execution''),
                 executionStartInfo h f]
          | Throws e s' \<Rightarrow>
              executionLog s' = executionLog s @
                [executionEndInfo h ex 1 (Some ''Aborted by new execution'')]) \<and>
         event (executionEndInfo h ex 1 (Some ''Aborted by new execution'')) = ''execution_end'' \<and>
         exe_file (executionEndInfo h ex 1 (Some ''Aborted by new execution'')) = cur_file ex \<and>
         exitCode (executionEndInfo h ex 1 (Some ''Aborted by new execution'')) = Some 1 \<and>
         exe_error (executionEndInfo h ex 1 (Some ''Aborted by new execution'')) =
           Some (if cur_error ex \<noteq> [] then cur_error ex else ''Aborted by new execution'') \<and>
         event (executionStartInfo h f) = ''execution_start'' \<and>
         exe_file (executionStartInfo h f) = f"
  using startPythonExecution_log [OF assms, of h f, unfolded abortReason_def]
    exe_error_of_abort [of h ex, unfolded abortReason_def]
  by (simp add: executionEndInfo_def executionStartInfo_def)

theorem second_run_closes_the_first_witness:
  "returned (startPythonExecution demo_host ''/w/b.py'' quiet_run) \<and>
   map event (executionLog (state_of (startPythonExecution demo_host ''/w/b.py'' quiet_run))) =
     [''execution_end'', ''execution_start''] \<and>
   map exe_error (executionLog (state_of (startPythonExecution demo_host ''/w/b.py'' quiet_run))) =
     [Some ''Aborted by new execution'', None]"
proof -
  have run: "currentExecution quiet_run = Some (run_of ''42'' [])"
    by (simp add: quiet_run_def)
  have snap: "snapshotCode demo_host (cur_file (run_of ''42'' [])) = Inr []"
    by code_simp
  have docs: "find (\<lambda>doc. fileName doc = ''/w/b.py'') (textDocuments demo_host) = None"
    by (simp add: demo_host_def)
  have split: "js_split newline
      (or_default (js_or (Some (cur_error (run_of ''42'' []))) (Some abortReason))
         ''Unknown error'') = [''Aborted by new execution'']"
    by code_simp
  have ret: "returned (startPythonExecution demo_host ''/w/b.py'' quiet_run)"
    by (simp add: startPythonExecution_result [OF run snap docs split])
  have logs: "executionLog quiet_run = []" "cur_error (run_of ''42'' []) = []"
    by (simp_all add: quiet_run_def demo_logger_def run_of_def)
  show ?thesis
    using second_run_closes_the_first [OF run, of demo_host "''/w/b.py''"] ret
    by (cases "startPythonExecution demo_host ''/w/b.py'' quiet_run")
      (simp_all add: logs executionEndInfo_def executionStartInfo_def js_or_def truthy_def)
qed

subsection \<open>Finishing twice\<close>

lemma finishExecution_unreadable:
  assumes "currentExecution s = Some ex"
    and "c \<noteq> 0 \<or> cur_error ex \<noteq> [] \<or> truthy m"
    and "snapshotCode h (cur_file ex) = Inl e"
  shows "finishExecution h c m s =
     Throws (FsError e) (s\<lparr>executionLog := executionLog s @ [executionEndInfo h ex c m]\<rparr>)"
  by (simp add: finishExecution_failed [OF assms(1,2)] logPythonError_throws [OF assms(3)]
      and_then_def)

text \<open>
  C6 fails on the code when the file of the run exists and cannot be read: the first call
  appends the \<^verbatim>\<open>execution_end\<close> record and is then left by the exception of
  \<^verbatim>\<open>readFileSync\<close>, before \<^verbatim>\<open>currentExecution\<close> is cleared; the second call finds the
  execution still current and appends a second record.
\<close>

theorem finishExecution_twice_on_unreadable_file:
  "finishExecution unreadable_host 2 None locked_run =
     Throws (FsError EACCES)
       (locked_run\<lparr>executionLog :=
          [executionEndInfo unreadable_host (run_of [] ''Permission denied'') 2 None]\<rparr>) \<and>
   map event (executionLog (state_of
     (finishExecution unreadable_host 1 (Some ''spawn failed'')
        (state_of (finishExecution unreadable_host 2 None locked_run))))) =
     [''execution_end'', ''execution_end'']"
proof -
  let ?ex = "run_of [] ''Permission denied''"
  let ?s1 = "locked_run\<lparr>executionLog := [executionEndInfo unreadable_host ?ex 2 None]\<rparr>"
  have run: "currentExecution locked_run = Some ?ex" "currentExecution ?s1 = Some ?ex"
    "executionLog locked_run = []"
    by (simp_all add: locked_run_def demo_logger_def)
  have snap: "snapshotCode unreadable_host (cur_file ?ex) = Inl EACCES"
    by code_simp
  have first: "finishExecution unreadable_host 2 None locked_run = Throws (FsError EACCES) ?s1"
    using finishExecution_unreadable [OF run(1) _ snap, of 2 None] by (simp add: run(3))
  have second: "finishExecution unreadable_host 1 (Some ''spawn failed'') ?s1 =
      Throws (FsError EACCES)
        (?s1\<lparr>executionLog := executionLog ?s1 @
           [executionEndInfo unreadable_host ?ex 1 (Some ''spawn failed'')]\<rparr>)"
    by (rule finishExecution_unreadable [OF run(2) _ snap]) simp
  have events: "event (executionEndInfo unreadable_host ?ex 2 None) = ''execution_end''"
    "event (executionEndInfo unreadable_host ?ex 1 (Some ''spawn failed'')) = ''execution_end''"
    by (simp_all add: executionEndInfo_def)
  show ?thesis
    by (simp add: first second events)
qed

theorem finishExecution_twice_on_unreadable_file_witness:
  "length (executionLog (state_of
     (finishExecution unreadable_host 1 (Some ''spawn failed'')
        (state_of (finishExecution unreadable_host 2 None locked_run))))) = 2"
proof -
  let ?log = "executionLog (state_of
     (finishExecution unreadable_host 1 (Some ''spawn failed'')
        (state_of (finishExecution unreadable_host 2 None locked_run))))"
  from finishExecution_twice_on_unreadable_file
  have "map event ?log = [''execution_end'', ''execution_end'']"
    by (rule conjunct2)
  then have "length (map event ?log) = length [''execution_end'', ''execution_end'']"
    by (rule arg_cong)
  then show ?thesis
    by simp
qed

section \<open>The document-change handler\<close>

subsection \<open>Insertions of several characters\<close>

lemma handleChange_multiCharInsert: "multiCharInsert c \<Longrightarrow> handleChange h d c s = Returns s"
  by (auto simp add: multiCharInsert_def handleChange_def)

lemma forEach_unchanged:
  "\<forall>c \<in> set cs. f c s = Returns s \<Longrightarrow> forEach f cs s = Returns s"
  by (induction cs) (simp_all add: and_then_def)

lemma onDidChangeTextDocument_inserts:
  assumes "\<forall>c \<in> set (contentChanges e). multiCharInsert c"
  shows "retargeted s (state_of (onDidChangeTextDocument h e s))"
proof (cases "languageId (ev_document e) \<noteq> ''python'' \<or> shouldIgnoreDocument s (ev_document e)")
  case True
  then show ?thesis
    by (auto simp add: onDidChangeTextDocument_def retargeted_refl)
next
  case False
  let ?r = "onDocumentChange h (ev_document e) s"
  have frame: "retargeted s (state_of ?r)"
    by (rule onDocumentChange_frame)
  from False have unfold: "onDidChangeTextDocument h e s =
      and_then ?r (forEach (handleChange h (ev_document e)) (contentChanges e))"
    by (simp add: onDidChangeTextDocument_def)
  show ?thesis
  proof (cases ?r)
    case (Returns s1)
    have "forEach (handleChange h (ev_document e)) (contentChanges e) s1 = Returns s1"
      using assms by (intro forEach_unchanged) (simp add: handleChange_multiCharInsert)
    with Returns unfold frame show ?thesis
      by (simp add: and_then_def)
  next
    case (Throws x s1)
    with unfold frame show ?thesis
      by (simp add: and_then_def)
  qed
qed

text \<open>
  C8: a change that inserts two or more characters over an empty range and is not
  \<^verbatim>\<open>"\n"\<close> or \<^verbatim>\<open>"\r\n"\<close> falls through every branch of the handler: the callback returns the
  object as it was, trace included. An event made of such changes only, however the
  handler ends, leaves the edit log, the error log and the execution log as they were.
\<close>

theorem multi_character_insertion_is_not_logged:
  "(rangeLength c = 0 \<and> 2 \<le> length (change_text c) \<and>
    change_text c \<noteq> [newline] \<and> change_text c \<noteq> [CHR 0x0D, newline] \<longrightarrow>
      handleChange h d c s = Returns s) \<and>
   ((\<forall>c \<in> set (contentChanges e). multiCharInsert c) \<longrightarrow>
      editLog (state_of (onDidChangeTextDocument h e s)) = editLog s \<and>
      errorLog (state_of (onDidChangeTextDocument h e s)) = errorLog s \<and>
      executionLog (state_of (onDidChangeTextDocument h e s)) = executionLog s)"
proof (intro conjI impI)
  assume "rangeLength c = 0 \<and> 2 \<le> length (change_text c) \<and>
    change_text c \<noteq> [newline] \<and> change_text c \<noteq> [CHR 0x0D, newline]"
  then have "multiCharInsert c"
    by (simp add: multiCharInsert_def)
  then show "handleChange h d c s = Returns s"
    by (rule handleChange_multiCharInsert)
next
  assume a: "\<forall>c \<in> set (contentChanges e). multiCharInsert c"
  note r = onDidChangeTextDocument_inserts [OF a, of s h]
  show "editLog (state_of (onDidChangeTextDocument h e s)) = editLog s"
    "errorLog (state_of (onDidChangeTextDocument h e s)) = errorLog s"
    "executionLog (state_of (onDidChangeTextDocument h e s)) = executionLog s"
    using retargeted_fields [OF r] by simp_all
qed

theorem multi_character_insertion_is_not_logged_witness:
  "handleChange demo_host demo_doc paste demo_logger = Returns demo_logger \<and>
   editLog (state_of (onDidChangeTextDocument demo_host
     \<lparr>ev_document = demo_doc, contentChanges = [paste]\<rparr> demo_logger)) = []"
proof -
  have p: "rangeLength paste = 0 \<and> 2 \<le> length (change_text paste) \<and>
      change_text paste \<noteq> [newline] \<and> change_text paste \<noteq> [CHR 0x0D, newline]"
    by (simp add: paste_def)
  then have m: "\<forall>c \<in> set (contentChanges \<lparr>ev_document = demo_doc, contentChanges = [paste]\<rparr>).
      multiCharInsert c"
    by (simp add: multiCharInsert_def)
  have e: "editLog demo_logger = []"
    by (simp add: demo_logger_def)
  show ?thesis
    using multi_character_insertion_is_not_logged
      [of paste demo_host demo_doc demo_logger "\<lparr>ev_document = demo_doc, contentChanges = [paste]\<rparr>"]
      p m
    by (simp add: e)
qed

subsection \<open>Typing\<close>

lemma scheduledFlushes_scheduleSave:
  "scheduledFlushes (scheduleSave s) = scheduledFlushes s + 1"
  by (simp add: scheduledFlushes_def scheduleSave_def emit_def Let_def split: option.splits)

lemma scheduledFlushes_retargeted:
  "retargeted s s' \<Longrightarrow> scheduledFlushes s' = scheduledFlushes s"
  by (auto simp add: retargeted_def scheduledFlushes_def filter_empty_conv)

lemma shouldIgnoreDocument_ids:
  "sessionId s' = sessionId s \<Longrightarrow> studentId s' = studentId s \<Longrightarrow>
   shouldIgnoreDocument s' d = shouldIgnoreDocument s d"
  by (simp add: shouldIgnoreDocument_def)

lemma typesOneChar_ids:
  "sessionId s' = sessionId s \<Longrightarrow> studentId s' = studentId s \<Longrightarrow>
   typesOneChar s' h e = typesOneChar s h e"
  by (simp add: typesOneChar_def shouldIgnoreDocument_ids [of s' s])

lemma ensureFolder_returns:
  assumes "existsSync (files h) f \<or> mkdirError h f = None"
  shows "returned (ensureFolder h f s)"
  using assms by (auto simp add: ensureFolder_def)

lemma saveLog_returned: "returned (saveLog h s)"
  using saveLog_frame [of h s] by auto

lemma onDocumentChange_returns:
  assumes "case workspaceFolderOf h d of
             None \<Rightarrow> True
           | Some w \<Rightarrow>
               existsSync (files h) (path_join w ''.logs'') \<or>
               mkdirError h (path_join w ''.logs'') = None"
  shows "returned (onDocumentChange h d s)"
proof (cases "shouldIgnoreDocument s d \<or> currentDocument s = fileName d")
  case True
  then show ?thesis
    by (auto simp add: onDocumentChange_def)
next
  case False
  show ?thesis
  proof (cases "workspaceFolderOf h d")
    case None
    with False show ?thesis
      by (simp add: onDocumentChange_def Let_def saveLog_returned)
  next
    case (Some w)
    with assms have "returned (ensureFolder h (path_join w ''.logs'') (s\<lparr>currentDocument := fileName d\<rparr>))"
      by (intro ensureFolder_returns) simp
    then obtain s2 where
      "ensureFolder h (path_join w ''.logs'') (s\<lparr>currentDocument := fileName d\<rparr>) = Returns s2"
      by (cases "ensureFolder h (path_join w ''.logs'') (s\<lparr>currentDocument := fileName d\<rparr>)")
        simp_all
    with False Some show ?thesis
      by (simp add: onDocumentChange_def Let_def and_then_def saveLog_returned)
  qed
qed

text \<open>One typed character: one key entry more, and a timer when the log reaches a multiple of ten.\<close>

lemma logKeyInput_appends:
  assumes "activePosition h = Some pos" and "line pos < length (doc_lines d)"
  shows "\<exists>k s'. logKeyInput h c d s = Returns s' \<and>
           editLog s' = editLog s @ [k] \<and> key k = Some c \<and>
           sessionId s' = sessionId s \<and> studentId s' = studentId s \<and>
           scheduledFlushes s' =
             scheduledFlushes s + (if (length (editLog s) + 1) mod 10 = 0 then 1 else 0)"
  using assms
  by (simp add: logKeyInput_def lineAt_def Let_def scheduledFlushes_scheduleSave)
    (simp add: scheduledFlushes_def)

lemma keystroke_step:
  assumes "typesOneChar s h e"
  shows "\<exists>k. editLog (state_of (onDidChangeTextDocument h e s)) = editLog s @ [k] \<and>
           key k = typedKey (h, e) \<and>
           sessionId (state_of (onDidChangeTextDocument h e s)) = sessionId s \<and>
           studentId (state_of (onDidChangeTextDocument h e s)) = studentId s \<and>
           scheduledFlushes (state_of (onDidChangeTextDocument h e s)) =
             scheduledFlushes s + (if (length (editLog s) + 1) mod 10 = 0 then 1 else 0)"
proof -
  let ?d = "ev_document e"
  from assms obtain c where c: "contentChanges e = [c]" "length (change_text c) = 1"
    "rangeLength c = 0"
    by (auto simp add: typesOneChar_def split: list.splits)
  from assms obtain pos where pos: "activePosition h = Some pos"
    "line pos < length (doc_lines ?d)"
    by (auto simp add: typesOneChar_def split: option.splits)
  from assms have "returned (onDocumentChange h ?d s)"
    by (intro onDocumentChange_returns) (simp add: typesOneChar_def)
  then obtain s1 where s1: "onDocumentChange h ?d s = Returns s1"
    by (cases "onDocumentChange h ?d s") simp_all
  with onDocumentChange_frame [of s h ?d] have frame: "retargeted s s1"
    by simp
  from assms s1 c have run: "onDidChangeTextDocument h e s = logKeyInput h (change_text c) ?d s1"
    by (simp add: typesOneChar_def onDidChangeTextDocument_def and_then_def handleChange_def)
      (cases "logKeyInput h (change_text c) ?d s1"; simp add: and_then_def)
  from logKeyInput_appends [OF pos, of "change_text c" s1] obtain k s' where
    k: "logKeyInput h (change_text c) ?d s1 = Returns s'" "editLog s' = editLog s1 @ [k]"
      "key k = Some (change_text c)" "sessionId s' = sessionId s1" "studentId s' = studentId s1"
      "scheduledFlushes s' =
         scheduledFlushes s1 + (if (length (editLog s1) + 1) mod 10 = 0 then 1 else 0)"
    by blast
  have "editLog s' = editLog s @ [k] \<and> key k = typedKey (h, e) \<and>
      sessionId s' = sessionId s \<and> studentId s' = studentId s \<and>
      scheduledFlushes s' =
        scheduledFlushes s + (if (length (editLog s) + 1) mod 10 = 0 then 1 else 0)"
    using k retargeted_fields [OF frame] scheduledFlushes_retargeted [OF frame] c(1)
    by (simp add: typedKey_def)
  then show ?thesis
    unfolding run k(1) state_of.simps by (rule exI)
qed

lemma tens_step:
  fixes n m :: nat
  shows "(if (n + 1) mod 10 = 0 then 1 else 0) + ((n + 1 + m) div 10 - (n + 1) div 10) =
      (n + Suc m) div 10 - n div 10"
proof -
  define a where "a = n div 10"
  define b where "b = (Suc n + m) div 10"
  define d :: nat where "d = (if Suc n mod 10 = 0 then 1 else 0)"
  have 1: "Suc n div 10 = a + d"
    unfolding a_def d_def by (simp add: div_Suc)
  have "Suc n div 10 \<le> (Suc n + m) div 10"
    by (rule div_le_mono) simp
  then have 2: "a + d \<le> b"
    unfolding 1 b_def .
  have "d + (b - (a + d)) = b - a"
    using 2 by simp
  then show ?thesis
    unfolding a_def b_def d_def 1 [unfolded a_def d_def, symmetric] by simp
qed

lemma typing_run:
  assumes "\<forall>he \<in> set es. typesOneChar s (fst he) (snd he)"
  shows "\<exists>ks. editLog (deliver es s) = editLog s @ ks \<and> map key ks = map typedKey es \<and>
           scheduledFlushes (deliver es s) =
             scheduledFlushes s +
               ((length (editLog s) + length es) div 10 - length (editLog s) div 10)"
  using assms
proof (induction es arbitrary: s)
  case Nil
  then show ?case by simp
next
  case (Cons he es)
  obtain h e where he: "he = (h, e)"
    by (cases he)
  let ?s1 = "state_of (onDidChangeTextDocument h e s)"
  from Cons.prems he have "typesOneChar s h e"
    by simp
  from keystroke_step [OF this] obtain k where
    k: "editLog ?s1 = editLog s @ [k]" "key k = typedKey (h, e)"
      "sessionId ?s1 = sessionId s" "studentId ?s1 = studentId s"
      "scheduledFlushes ?s1 =
         scheduledFlushes s + (if (length (editLog s) + 1) mod 10 = 0 then 1 else 0)"
    by blast
  from Cons.prems have "\<forall>he \<in> set es. typesOneChar ?s1 (fst he) (snd he)"
    by (simp add: typesOneChar_ids [OF k(3,4)])
  from Cons.IH [OF this] obtain ks where
    ks: "editLog (deliver es ?s1) = editLog ?s1 @ ks" "map key ks = map typedKey es"
      "scheduledFlushes (deliver es ?s1) =
         scheduledFlushes ?s1 +
           ((length (editLog ?s1) + length es) div 10 - length (editLog ?s1) div 10)"
    by blast
  let ?n = "length (editLog s)" and ?m = "length es"
  have len: "length (editLog ?s1) = ?n + 1"
    using k(1) by simp
  have "scheduledFlushes (deliver es ?s1) =
      scheduledFlushes s +
        ((if (?n + 1) mod 10 = 0 then 1 else 0) + ((?n + 1 + ?m) div 10 - (?n + 1) div 10))"
    unfolding ks(3) k(5) len by (rule add.assoc)
  also have "\<dots> = scheduledFlushes s + ((?n + Suc ?m) div 10 - ?n div 10)"
    by (simp only: tens_step)
  finally have flushes: "scheduledFlushes (deliver (he # es) s) =
      scheduledFlushes s + ((?n + length (he # es)) div 10 - ?n div 10)"
    by (simp only: he deliver.simps list.size length_Cons)
  have "editLog (deliver (he # es) s) = editLog s @ (k # ks)"
    "map key (k # ks) = map typedKey (he # es)"
    using k(1,2) ks(1,2) by (simp_all add: he)
  with flushes have "editLog (deliver (he # es) s) = editLog s @ (k # ks) \<and>
      map key (k # ks) = map typedKey (he # es) \<and>
      scheduledFlushes (deliver (he # es) s) =
        scheduledFlushes s + ((?n + length (he # es)) div 10 - ?n div 10)"
    by (intro conjI)
  then show ?case
    by (rule exI)
qed

lemma typing_counts:
  assumes "editLog s = []" and "\<forall>he \<in> set es. typesOneChar s (fst he) (snd he)"
  shows "map key (editLog (deliver (take n es) s)) = map typedKey (take n es) \<and>
         scheduledFlushes (deliver (take n es) s) =
           scheduledFlushes s + length (take n es) div 10"
proof -
  have "\<forall>he \<in> set (take n es). typesOneChar s (fst he) (snd he)"
    using assms(2) by (auto dest: in_set_takeD)
  from typing_run [OF this] assms(1) show ?thesis
    by auto
qed

lemma keystroke_typesOneChar: "typesOneChar fresh_logger (fst (keystroke i)) (snd (keystroke i))"
proof -
  have name: "\<not> js_includes ''/w/a.py'' ''.logs''" "\<not> endsWith ''/w/a.py'' ''.json''"
    "\<not> js_includes ''/w/a.py'' ''extension-output''"
    "\<not> js_includes ''/w/a.py'' ''Python Execution Log''"
    by code_simp+
  have folder: "existsSync (files logs_host) (path_join ''/w'' ''.logs'')"
    by code_simp
  have ws: "workspaceFolderOf logs_host = (\<lambda>d. Some ''/w'')"
    by (simp add: logs_host_def demo_host_def)
  show ?thesis
    by (simp add: typesOneChar_def keystroke_def shouldIgnoreDocument_def name folder ws)
qed

lemma twelve_keystrokes_typed:
  "\<forall>he \<in> set twelve_keystrokes. typesOneChar fresh_logger (fst he) (snd he)"
  by (auto simp add: twelve_keystrokes_def keystroke_typesOneChar)

lemma fresh_logger_empty: "editLog fresh_logger = []" "emitted fresh_logger = []"
  by (simp_all add: fresh_logger_def demo_logger_def)

text \<open>
  C3, as stated, fails: twelve characters typed into an empty file, from an empty edit
  log, append twelve key records and schedule one flush by the every-tenth rule, not two.
\<close>

theorem twelve_keystrokes_schedule_one_flush:
  "length (editLog (deliver twelve_keystrokes fresh_logger)) = 12 \<and>
   scheduledFlushes (deliver twelve_keystrokes fresh_logger) = 1"
proof -
  have len: "length twelve_keystrokes = 12"
    by (simp add: twelve_keystrokes_def)
  from typing_counts [OF fresh_logger_empty(1) twelve_keystrokes_typed, of 12]
  have keys: "map key (editLog (deliver twelve_keystrokes fresh_logger)) =
      map typedKey twelve_keystrokes"
    and flushes: "scheduledFlushes (deliver twelve_keystrokes fresh_logger) =
      scheduledFlushes fresh_logger + length twelve_keystrokes div 10"
    by (simp_all add: len)
  from keys have "length (map key (editLog (deliver twelve_keystrokes fresh_logger))) =
      length (map typedKey twelve_keystrokes)"
    by (rule arg_cong)
  with flushes show ?thesis
    by (simp add: len scheduledFlushes_def fresh_logger_empty)
qed

text \<open>
  C3 (amended): twelve events that each type one character into a Python document that is
  not ignored, starting from an empty edit log, append twelve key records, whose keys are
  the typed characters in order, and schedule exactly one flush by the every-tenth rule:
  none during the first nine keystrokes, one at the tenth, no other after it. Flushes that
  the debounce timer performs are no part of the count.
\<close>

theorem twelve_typed_characters:
  assumes "editLog s = []" and "length es = 12"
    and "\<forall>he \<in> set es. typesOneChar s (fst he) (snd he)"
  shows "length (editLog (deliver es s)) = 12 \<and>
         map key (editLog (deliver es s)) = map typedKey es \<and>
         scheduledFlushes (deliver (take 9 es) s) = scheduledFlushes s \<and>
         scheduledFlushes (deliver (take 10 es) s) = scheduledFlushes s + 1 \<and>
         scheduledFlushes (deliver es s) = scheduledFlushes s + 1"
proof -
  from typing_counts [OF assms(1,3), of 12] assms(2)
  have keys: "map key (editLog (deliver es s)) = map typedKey es"
    and all: "scheduledFlushes (deliver es s) = scheduledFlushes s + 1"
    by simp_all
  from keys have "length (map key (editLog (deliver es s))) = length (map typedKey es)"
    by (rule arg_cong)
  then have len: "length (editLog (deliver es s)) = 12"
    using assms(2) by simp
  from typing_counts [OF assms(1,3), of 9] assms(2)
  have nine: "scheduledFlushes (deliver (take 9 es) s) = scheduledFlushes s"
    by simp
  from typing_counts [OF assms(1,3), of 10] assms(2)
  have ten: "scheduledFlushes (deliver (take 10 es) s) = scheduledFlushes s + 1"
    by simp
  from len keys nine ten all show ?thesis
    by (intro conjI)
qed

theorem twelve_typed_characters_witness:
  "map key (editLog (deliver twelve_keystrokes fresh_logger)) = replicate 12 (Some ''x'') \<and>
   scheduledFlushes (deliver (take 9 twelve_keystrokes) fresh_logger) = 0 \<and>
   scheduledFlushes (deliver (take 10 twelve_keystrokes) fresh_logger) = 1 \<and>
   scheduledFlushes (deliver twelve_keystrokes fresh_logger) = 1"
proof -
  have len: "length twelve_keystrokes = 12"
    by (simp add: twelve_keystrokes_def)
  have "typedKey (keystroke i) = Some ''x''" for i
    by (simp add: typedKey_def keystroke_def)
  then have "map typedKey twelve_keystrokes = map (\<lambda>i. Some ''x'') [0..<12]"
    by (simp add: twelve_keystrokes_def)
  then have typed: "map typedKey twelve_keystrokes = replicate 12 (Some ''x'')"
    by (simp only: map_replicate_const length_upt) simp
  have zero: "scheduledFlushes fresh_logger = 0"
    by (simp add: scheduledFlushes_def fresh_logger_empty)
  show ?thesis
    using twelve_typed_characters [OF fresh_logger_empty(1) len twelve_keystrokes_typed]
    by (simp add: typed zero)
qed

section \<open>The saving flag and failed flushes\<close>

subsection \<open>The flag is clear whenever a listener starts\<close>



lemma idle_scheduleSave: "\<not> isSaving s \<Longrightarrow> \<not> isSaving (scheduleSave s)"
  by simp













subsection \<open>A flush while a write is pending\<close>










subsection \<open>Flushes that fail\<close>







end
